theory Spec2Isabelle
  imports Complex_Main "HOL-Library.Word"
begin

section \<open>JavaScript values\<close>

text \<open>
  A JavaScript string is a sequence of UTF-16 code units, and \<open>.length\<close> (which the
  schema's \<open>min\<close>/\<open>max\<close> checks read) counts code units.
\<close>

type_synonym js_string = "16 word list"

definition utf16 :: "string \<Rightarrow> js_string" where
  "utf16 s = map (\<lambda>c. word_of_nat (of_char c)) s"

text \<open>
  A JavaScript number. Every finite double is a rational; \<open>NaN\<close> and the infinities are
  kept apart because \<open>z.number()\<close> and \<open>Number.isFinite\<close> tell them from the rest.
\<close>

datatype number = Num rat | NaN | PosInfinity | NegInfinity

fun isFinite :: "number \<Rightarrow> bool" where
  "isFinite (Num _) = True"
| "isFinite _ = False"

text \<open>Number of binary digits of a natural number.\<close>

fun bits :: "nat \<Rightarrow> nat" where
  "bits n = (if n = 0 then 0 else Suc (bits (n div 2)))"

declare bits.simps [simp del]

text \<open>
  The Number value of a mathematical integer: exact below \<open>2^53\<close>, otherwise rounded to
  53 significant bits, ties to even, and \<open>+Infinity\<close> when the rounded value reaches
  \<open>2^1024\<close>.
\<close>

definition roundToDouble :: "nat \<Rightarrow> number" where
  "roundToDouble n =
     (if n < 2 ^ 53 then Num (of_nat n)
      else let ulp = 2 ^ (bits n - 53);
               q = n div ulp;
               r = n mod ulp;
               m = (if ulp < 2 * r \<or> (2 * r = ulp \<and> odd q) then q + 1 else q)
           in if 2 ^ 1024 \<le> m * ulp then PosInfinity else Num (of_nat (m * ulp)))"

text \<open>
  The exponent of a positive rational: the integer \<open>e\<close> with \<open>2^e \<le> x < 2^(e+1)\<close>.
\<close>

definition floor_log2 :: "rat \<Rightarrow> int" where
  "floor_log2 x =
     (if 1 \<le> x then int (bits (nat \<lfloor>x\<rfloor>)) - 1
      else - int (bits (nat (\<lceil>1 / x\<rceil> - 1))))"

text \<open>Rounding to the nearest integer, a tie to the even one.\<close>

definition round_half_even :: "rat \<Rightarrow> int" where
  "round_half_even x =
     (if 1 / 2 < x - of_int \<lfloor>x\<rfloor> \<or> (x - of_int \<lfloor>x\<rfloor> = 1 / 2 \<and> odd \<lfloor>x\<rfloor>) then \<lfloor>x\<rfloor> + 1
      else \<lfloor>x\<rfloor>)"

text \<open>
  The double nearest to a positive rational, ties to even: 53 significant bits for a
  normal number, multiples of \<open>2^-1074\<close> below \<open>2^-1022\<close>; \<open>None\<close> when the rounded
  value reaches \<open>2^1024\<close>.
\<close>

definition round_positive :: "rat \<Rightarrow> rat option" where
  "round_positive x =
     (let ulp = 2 powi (max (floor_log2 x) (- 1022) - 52);
          y = of_int (round_half_even (x / ulp)) * ulp
      in if 2 ^ 1024 \<le> y then None else Some y)"

text \<open>
  The Number value of the exact result of an arithmetic operation. The sign of a zero
  is not kept; nothing here divides by a computed zero.
\<close>

definition to_double :: "rat \<Rightarrow> number" where
  "to_double x =
     (if x = 0 then Num 0
      else if 0 < x then (case round_positive x of None \<Rightarrow> PosInfinity | Some y \<Rightarrow> Num y)
      else (case round_positive (- x) of None \<Rightarrow> NegInfinity | Some y \<Rightarrow> Num (- y)))"

text \<open>The operators \<open>-\<close>, \<open>/\<close> and \<open>*\<close> on numbers.\<close>

fun js_minus :: "number \<Rightarrow> number \<Rightarrow> number" where
  "js_minus (Num a) (Num b) = to_double (a - b)"
| "js_minus NaN _ = NaN"
| "js_minus _ NaN = NaN"
| "js_minus PosInfinity PosInfinity = NaN"
| "js_minus NegInfinity NegInfinity = NaN"
| "js_minus PosInfinity _ = PosInfinity"
| "js_minus NegInfinity _ = NegInfinity"
| "js_minus (Num a) PosInfinity = NegInfinity"
| "js_minus (Num a) NegInfinity = PosInfinity"

fun js_divide :: "number \<Rightarrow> number \<Rightarrow> number" where
  "js_divide (Num a) (Num b) =
     (if b = 0 then (if a = 0 then NaN else if 0 < a then PosInfinity else NegInfinity)
      else to_double (a / b))"
| "js_divide NaN _ = NaN"
| "js_divide _ NaN = NaN"
| "js_divide (Num a) PosInfinity = Num 0"
| "js_divide (Num a) NegInfinity = Num 0"
| "js_divide PosInfinity (Num b) = (if b < 0 then NegInfinity else PosInfinity)"
| "js_divide NegInfinity (Num b) = (if b < 0 then PosInfinity else NegInfinity)"
| "js_divide PosInfinity PosInfinity = NaN"
| "js_divide PosInfinity NegInfinity = NaN"
| "js_divide NegInfinity PosInfinity = NaN"
| "js_divide NegInfinity NegInfinity = NaN"

fun js_times :: "number \<Rightarrow> number \<Rightarrow> number" where
  "js_times (Num a) (Num b) = to_double (a * b)"
| "js_times NaN _ = NaN"
| "js_times _ NaN = NaN"
| "js_times PosInfinity (Num b) =
     (if b = 0 then NaN else if 0 < b then PosInfinity else NegInfinity)"
| "js_times NegInfinity (Num b) =
     (if b = 0 then NaN else if 0 < b then NegInfinity else PosInfinity)"
| "js_times (Num a) PosInfinity =
     (if a = 0 then NaN else if 0 < a then PosInfinity else NegInfinity)"
| "js_times (Num a) NegInfinity =
     (if a = 0 then NaN else if 0 < a then NegInfinity else PosInfinity)"
| "js_times PosInfinity PosInfinity = PosInfinity"
| "js_times NegInfinity NegInfinity = PosInfinity"
| "js_times PosInfinity NegInfinity = NegInfinity"
| "js_times NegInfinity PosInfinity = NegInfinity"

definition isDigit :: "16 word \<Rightarrow> bool" where
  "isDigit c = (0x30 \<le> c \<and> c \<le> 0x39)"

definition digitsValue :: "js_string \<Rightarrow> nat" where
  "digitsValue ds = foldl (\<lambda>a c. 10 * a + (unat c - 48)) 0 ds"

text \<open>White space and line terminators that \<open>parseInt\<close> skips.\<close>

definition isStrWhiteSpace :: "16 word \<Rightarrow> bool" where
  "isStrWhiteSpace c =
     (c \<in> {0x09, 0x0A, 0x0B, 0x0C, 0x0D, 0x20, 0xA0, 0x1680, 0x2028, 0x2029, 0x202F,
           0x205F, 0x3000, 0xFEFF} \<or> (0x2000 \<le> c \<and> c \<le> 0x200A))"

fun negate :: "number \<Rightarrow> number" where
  "negate (Num q) = Num (- q)"
| "negate PosInfinity = NegInfinity"
| "negate NegInfinity = PosInfinity"
| "negate NaN = NaN"

text \<open>
  \<open>parseInt(s, 10)\<close>; \<open>None\<close> is \<open>undefined\<close>, which is converted to the string
  \<open>"undefined"\<close> and has no digits.
\<close>

definition parseInt :: "js_string option \<Rightarrow> number" where
  "parseInt s =
     (case s of
        None \<Rightarrow> NaN
      | Some str \<Rightarrow>
          (let t = dropWhile isStrWhiteSpace str;
               neg = (t \<noteq> [] \<and> hd t = 0x2D);
               u = (if t \<noteq> [] \<and> (hd t = 0x2D \<or> hd t = 0x2B) then tl t else t);
               ds = takeWhile isDigit u
           in if ds = [] then NaN
              else if neg then negate (roundToDouble (digitsValue ds))
              else roundToDouble (digitsValue ds)))"


text \<open>JavaScript's greater-than comparison and \<open>Math.max\<close> on numbers.\<close>

fun gt :: "number \<Rightarrow> number \<Rightarrow> bool" where
  "gt (Num a) (Num b) = (b < a)"
| "gt (Num a) NegInfinity = True"
| "gt PosInfinity (Num b) = True"
| "gt PosInfinity NegInfinity = True"
| "gt _ _ = False"

fun Math_max :: "number \<Rightarrow> number \<Rightarrow> number" where
  "Math_max (Num a) (Num b) = Num (max a b)"
| "Math_max NaN _ = NaN"
| "Math_max _ NaN = NaN"
| "Math_max PosInfinity _ = PosInfinity"
| "Math_max _ PosInfinity = PosInfinity"
| "Math_max NegInfinity y = y"
| "Math_max x NegInfinity = x"

text \<open>
  \<open>toLowerCase\<close> on the ASCII letters. The code applies it only to a string that has
  passed the size pattern, which holds digits and the letter x in either case.
\<close>

definition toLowerCase :: "js_string \<Rightarrow> js_string" where
  "toLowerCase s = map (\<lambda>c. if 0x41 \<le> c \<and> c \<le> 0x5A then c + 0x20 else c) s"

text \<open>\<open>s.split(sep)\<close> for a separator of one code unit.\<close>

fun js_split :: "16 word \<Rightarrow> js_string \<Rightarrow> js_string list" where
  "js_split sep [] = [[]]"
| "js_split sep (c # cs) =
     (if c = sep then [] # js_split sep cs
      else (case js_split sep cs of [] \<Rightarrow> [[c]] | p # ps \<Rightarrow> (c # p) # ps))"

text \<open>Reading an array element; \<open>None\<close> is \<open>undefined\<close>.\<close>

definition element :: "'a list \<Rightarrow> nat \<Rightarrow> 'a option" where
  "element xs i = (if i < length xs then Some (xs ! i) else None)"

section \<open>The generation request and its schema\<close>

datatype image_ref = OneImage js_string | ManyImages "js_string list"

datatype seq_mode = SeqDisabled | SeqAuto

datatype quality_param = QNumber number | QStandard | QHd

text \<open>The fields of sharp's \<open>ResizeOptions\<close> that this code sets.\<close>

record ResizeOptions =
  width :: "number option"
  height :: "number option"
  fit :: "js_string option"
  position :: "js_string option"

record params =
  prompt :: js_string
  negative_prompt :: "js_string option"
  image :: "image_ref option"
  size :: "js_string option"
  num_images :: "number option"
  sequential_image_generation :: "seq_mode option"
  stream :: "bool option"
  watermark :: "bool option"
  seed :: "number option"
  projectId :: "js_string option"
  quality :: "quality_param option"
  resizeOptions :: "ResizeOptions option"

text \<open>The value \<open>DoubaoSeedreamInputSchema.parse\<close> returns: defaults filled in.\<close>

record validated =
  v_prompt :: js_string
  v_negative_prompt :: "js_string option"
  v_image :: "image_ref option"
  v_size :: js_string
  v_num_images :: rat
  v_sequential_image_generation :: seq_mode
  v_stream :: bool
  v_watermark :: bool
  v_seed :: "rat option"
  v_quality :: "quality_param option"

text \<open>
  A zod issue: its code and the field it is reported on. \<open>pattern_issue\<close> is the issue
  of a string that fails \<open>.regex\<close>, with the message given there (zod 3 gives it the
  code \<open>invalid_string\<close>, zod 4 the code \<open>invalid_format\<close>).
\<close>

datatype issue =
    too_small string
  | too_big string
  | invalid_type string
  | invalid_union string
  | pattern_issue string js_string

text \<open>The message of line 41, in UTF-16 code units; it ends in \<open>WxH\<close> and an example.\<close>

definition size_message :: js_string where
  "size_message =
     [0x5C3A, 0x5BF8, 0x683C, 0x5F0F, 0x5FC5, 0x987B, 0x4E3A, 0x20, 0x57, 0x78, 0x48, 0xFF0C,
      0x4F8B, 0x5982, 0x20, 0x31, 0x34, 0x34, 0x30, 0x78, 0x32, 0x35, 0x36, 0x30]"

text \<open>The pattern \<open>/^[0-9]+x[0-9]+$/i\<close>.\<close>

definition isX :: "16 word \<Rightarrow> bool" where
  "isX c = (c = 0x78 \<or> c = 0x58)"

definition size_pattern :: "js_string \<Rightarrow> bool" where
  "size_pattern s =
     (takeWhile isDigit s \<noteq> [] \<and>
      (case dropWhile isDigit s of
         [] \<Rightarrow> False
       | c # rest \<Rightarrow> isX c \<and> rest \<noteq> [] \<and> list_all isDigit rest))"

text \<open>\<open>z.number().min(lo).max(hi)\<close>: \<open>NaN\<close> is not a number for zod.\<close>

fun check_number :: "string \<Rightarrow> rat \<Rightarrow> rat \<Rightarrow> number \<Rightarrow> issue list" where
  "check_number path lo hi (Num q) =
     (if q < lo then [too_small path] else []) @ (if hi < q then [too_big path] else [])"
| "check_number path lo hi NaN = [invalid_type path]"
| "check_number path lo hi PosInfinity = [too_big path]"
| "check_number path lo hi NegInfinity = [too_small path]"

definition check_prompt :: "js_string \<Rightarrow> issue list" where
  "check_prompt p =
     (if length p < 1 then [too_small ''prompt''] else []) @
     (if 800 < length p then [too_big ''prompt''] else [])"

definition check_negative_prompt :: "js_string option \<Rightarrow> issue list" where
  "check_negative_prompt np =
     (case np of None \<Rightarrow> []
      | Some s \<Rightarrow> if 500 < length s then [too_big ''negative_prompt''] else [])"

text \<open>
  The size: a union of the enum and the string with the pattern. A string that is not
  in the enum and fails the pattern comes back from the string option with its issue,
  and the union reports that issue.
\<close>

definition check_size :: "js_string option \<Rightarrow> issue list" where
  "check_size sz =
     (case sz of None \<Rightarrow> []
      | Some s \<Rightarrow>
          if s = utf16 ''2K'' \<or> s = utf16 ''4K'' \<or> size_pattern s then []
          else [pattern_issue ''size'' size_message])"

definition check_optional_number :: "string \<Rightarrow> rat \<Rightarrow> rat \<Rightarrow> number option \<Rightarrow> issue list" where
  "check_optional_number path lo hi n =
     (case n of None \<Rightarrow> [] | Some x \<Rightarrow> check_number path lo hi x)"

text \<open>
  The quality: a union of the number and the enum. A number outside the bounds comes
  back from the number option with its issue, and the union reports that issue;
  \<open>NaN\<close> fits no option.
\<close>

definition check_quality :: "quality_param option \<Rightarrow> issue list" where
  "check_quality q =
     (case q of
        Some (QNumber n) \<Rightarrow>
          (case n of
             NaN \<Rightarrow> [invalid_union ''quality'']
           | _ \<Rightarrow> check_number ''quality'' 1 10 n)
      | _ \<Rightarrow> [])"

definition issues :: "params \<Rightarrow> issue list" where
  "issues p =
     check_prompt (prompt p) @
     check_negative_prompt (negative_prompt p) @
     check_size (size p) @
     check_optional_number ''num_images'' 1 4 (num_images p) @
     check_optional_number ''seed'' 0 2147483647 (seed p) @
     check_quality (quality p)"

fun the_rat :: "number \<Rightarrow> rat" where
  "the_rat (Num q) = q"
| "the_rat _ = 0"

text \<open>
  Every value a step of the pipeline can throw; each stands for the message that the
  \<open>catch\<close> blocks read off it. \<open>ZodError\<close> is thrown by the schema, \<open>MissingApiKey\<close> at
  line 120, \<open>ApiCallFailed\<close> (status, status text, body text) at line 185,
  \<open>NoImageUrl\<close> at line 196 and \<open>AllProcessingFailed\<close> at line 276 of
  \<open>generateDoubaoSeedreamImage\<close>; \<open>DownloadFailed\<close> (status, status text) and
  \<open>EmptyImageData\<close> are thrown by \<open>processAndUploadImage\<close>, \<open>SignedUrlFailed\<close> by
  the signing helper around the error it caught. \<open>Raised\<close> is any other \<open>Error\<close> with
  its message (a rejected fetch, a failed encoding or upload); \<open>NotAnError\<close> is a thrown
  value that is not an \<open>Error\<close>, for which the \<open>catch\<close> blocks report an unknown error.
\<close>

datatype err =
    ZodError "issue list"
  | MissingApiKey
  | ApiCallFailed nat js_string js_string
  | NoImageUrl
  | AllProcessingFailed
  | DownloadFailed nat js_string
  | EmptyImageData
  | SignedUrlFailed err
  | Raised js_string
  | NotAnError

text \<open>
  \<open>DoubaoSeedreamInputSchema.parse(schemaInput)\<close>. The object schema drops the keys
  it does not name (\<open>projectId\<close>); \<open>resizeOptions\<close> was taken out before.
\<close>

definition DoubaoSeedreamInputSchema_parse :: "params \<Rightarrow> err + validated" where
  "DoubaoSeedreamInputSchema_parse p =
     (if issues p \<noteq> [] then Inl (ZodError (issues p))
      else Inr \<lparr>
        v_prompt = prompt p,
        v_negative_prompt = negative_prompt p,
        v_image = image p,
        v_size = (case size p of None \<Rightarrow> utf16 ''2K'' | Some s \<Rightarrow> s),
        v_num_images = (case num_images p of None \<Rightarrow> 1 | Some n \<Rightarrow> the_rat n),
        v_sequential_image_generation =
          (case sequential_image_generation p of None \<Rightarrow> SeqDisabled | Some m \<Rightarrow> m),
        v_stream = (case stream p of None \<Rightarrow> False | Some b \<Rightarrow> b),
        v_watermark = (case watermark p of None \<Rightarrow> False | Some b \<Rightarrow> b),
        v_seed = map_option the_rat (seed p),
        v_quality = quality p \<rparr>)"

section \<open>Resolving the provider tier and the resize directive\<close>

datatype DoubaoSeedreamSize = Size2K | Size4K

text \<open>
  Lines 89 to 115 of \<open>generateDoubaoSeedreamImage\<close>: from the validated size and the
  caller's resize options to \<open>apiSize\<close> and \<open>targetResizeOptions\<close>.
\<close>

definition resolveSize ::
  "js_string \<Rightarrow> ResizeOptions option \<Rightarrow> DoubaoSeedreamSize \<times> ResizeOptions option" where
  "resolveSize requestedSize callerResize =
     (if size_pattern requestedSize then
        (let parts = js_split 0x78 (toLowerCase requestedSize);
             wd = parseInt (element parts 0);
             ht = parseInt (element parts 1)
         in if isFinite wd \<and> isFinite ht \<and> gt wd (Num 0) \<and> gt ht (Num 0) then
              (if gt (Math_max wd ht) (Num 2048) then Size4K else Size2K,
               case callerResize of
                 None \<Rightarrow> Some \<lparr> width = Some wd, height = Some ht,
                                fit = Some (utf16 ''cover''), position = Some (utf16 ''center'') \<rparr>
               | Some r \<Rightarrow> Some r)
            else (Size2K, callerResize))
      else if requestedSize = utf16 ''4K'' then (Size4K, callerResize)
      else (Size2K, callerResize))"


section \<open>The outside world\<close>

type_synonym buffer = "8 word list"

text \<open>
  What \<open>fetch\<close> of an image URL gives: it rejects, or it responds with \<open>ok\<close>,
  \<open>status\<close>, \<open>statusText\<close> and a body that \<open>arrayBuffer()\<close> reads or fails to read.
\<close>

datatype download_reply =
    FetchRejects err
  | Responds bool nat js_string "err + buffer"

text \<open>
  What the provider gives: \<open>fetch\<close> rejects; a response that is not \<open>ok\<close>, with
  \<open>status\<close>, \<open>statusText\<close> and the result of \<open>text()\<close>; or an \<open>ok\<close> response with the
  result of \<open>json()\<close>, of which only the \<open>url\<close> fields of \<open>data\<close> are read
  (\<open>None\<close>: no \<open>data\<close>; \<open>Inl\<close>: \<open>json()\<close> rejects or the answer cannot be
  read).
\<close>

datatype provider_reply =
    ProviderRejects err
  | ProviderNotOk nat js_string "err + js_string"
  | ProviderOk "err + js_string list option"

record DoubaoSeedreamRequest =
  req_model :: js_string
  req_prompt :: js_string
  req_negative_prompt :: "js_string option"
  req_image :: "image_ref option"
  req_size :: DoubaoSeedreamSize
  req_num_images :: "rat option"
  req_sequential_image_generation :: "seq_mode option"
  req_stream :: bool
  req_response_format :: js_string
  req_watermark :: bool
  req_seed :: "rat option"
  req_quality :: "quality_param option"

text \<open>
  The services the code calls are parameters of the model; a property proved for every
  world holds whatever they answer. The provider's answer may differ from one call to the
  next, so it also depends on the number of the call (0 for the primary request).
  \<open>sharp_webp\<close> is the encoding of a buffer with the resize options and the quality,
  \<open>oss_put\<close> the upload (\<open>Some\<close>: it throws), \<open>signatureUrl\<close> the signing of a key for a
  number of seconds. \<open>Date_now\<close> and \<open>random_id\<close> are the clock and the random suffix;
  they only enter the names of the stored files.
\<close>

record world =
  SEED_EDIT_KEY :: "js_string option"
  provider :: "nat \<Rightarrow> DoubaoSeedreamRequest \<Rightarrow> provider_reply"
  fetch_image :: "js_string \<Rightarrow> download_reply"
  sharp_webp :: "buffer \<Rightarrow> ResizeOptions option \<Rightarrow> number \<Rightarrow> err + buffer"
  oss_put :: "js_string \<Rightarrow> buffer \<Rightarrow> err option"
  signatureUrl :: "js_string \<Rightarrow> nat \<Rightarrow> err + js_string"
  Date_now :: nat
  random_id :: js_string

section \<open>Processing and uploading one image\<close>

record ImageProcessResult =
  success :: bool
  url :: "js_string option"
  ossKey :: "js_string option"
  error :: "err option"
  originalSize :: "nat option"
  compressedSize :: "nat option"
  compressionRatio :: "number option"

text \<open>Decimal digits of a number, as template literals print it.\<close>

fun show_nat :: "nat \<Rightarrow> js_string" where
  "show_nat n =
     (if n < 10 then [word_of_nat (48 + n)]
      else show_nat (n div 10) @ [word_of_nat (48 + n mod 10)])"

declare show_nat.simps [simp del]

text \<open>\<open>x || 'default'\<close> on an optional string: the empty string is falsy.\<close>

definition or_default :: "js_string option \<Rightarrow> js_string \<Rightarrow> js_string" where
  "or_default x d = (case x of None \<Rightarrow> d | Some s \<Rightarrow> if s = [] then d else s)"

text \<open>\<open>OSSImageManager.generateSignedImageUrl\<close>: any failure is rethrown, wrapped.\<close>

definition generateSignedImageUrl :: "world \<Rightarrow> js_string \<Rightarrow> nat \<Rightarrow> err + js_string" where
  "generateSignedImageUrl w key expiresInDays =
     (case signatureUrl w key (expiresInDays * 24 * 60 * 60) of
        Inl e \<Rightarrow> Inl (SignedUrlFailed e)
      | Inr signedUrl \<Rightarrow> Inr signedUrl)"

text \<open>
  Line 73: the compression ratio, computed in doubles and guarded against an original
  size of 0. The length of a buffer is an integer that a Number holds exactly.
\<close>

definition compression_ratio :: "nat \<Rightarrow> nat \<Rightarrow> number" where
  "compression_ratio original compressed =
     (if gt (Num (of_nat original)) (Num 0) then
        js_times
          (js_divide (js_minus (Num (of_nat original)) (Num (of_nat compressed)))
             (Num (of_nat original)))
          (Num 100)
      else Num 0)"

text \<open>
  Lines 82 to 86: the storage key. An empty project id or file name is falsy.
\<close>

definition oss_key :: "world \<Rightarrow> js_string option \<Rightarrow> js_string option \<Rightarrow> js_string" where
  "oss_key w project fileName =
     (if or_default fileName [] \<noteq> [] then
        utf16 ''generated-images/'' @ or_default project (utf16 ''default'') @ utf16 ''/''
          @ or_default fileName []
      else
        utf16 ''generated-images/'' @ or_default project (utf16 ''default'') @ utf16 ''/''
          @ show_nat (Date_now w) @ utf16 ''-'' @ random_id w @ utf16 ''.webp'')"

text \<open>
  The \<open>try\<close> block of \<open>processAndUploadImage\<close>: \<open>Inl\<close> is a value thrown inside it.
  The default of \<open>quality\<close> is 80.
\<close>

definition processAndUploadImage_try ::
  "world \<Rightarrow> js_string \<Rightarrow> js_string option \<Rightarrow> js_string option \<Rightarrow> number option \<Rightarrow>
   ResizeOptions option \<Rightarrow> err + ImageProcessResult" where
  "processAndUploadImage_try w imageUrl project fileName q resize =
     (case fetch_image w imageUrl of
        FetchRejects e \<Rightarrow> Inl e
      | Responds ok status statusText body \<Rightarrow>
          if \<not> ok then Inl (DownloadFailed status statusText)
          else (case body of
             Inl e \<Rightarrow> Inl e
           | Inr originalBuffer \<Rightarrow>
               if length originalBuffer = 0 then Inl EmptyImageData
               else (case sharp_webp w originalBuffer resize
                            (case q of None \<Rightarrow> Num 80 | Some x \<Rightarrow> x) of
                  Inl e \<Rightarrow> Inl e
                | Inr processedBuffer \<Rightarrow>
                    (let key = oss_key w project fileName
                     in case oss_put w key processedBuffer of
                          Some e \<Rightarrow> Inl e
                        | None \<Rightarrow>
                            (case generateSignedImageUrl w key 30 of
                               Inl e \<Rightarrow> Inl e
                             | Inr signedUrl \<Rightarrow>
                                 Inr \<lparr> success = True,
                                       url = Some signedUrl,
                                       ossKey = Some key,
                                       error = None,
                                       originalSize = Some (length originalBuffer),
                                       compressedSize = Some (length processedBuffer),
                                       compressionRatio =
                                         Some (compression_ratio (length originalBuffer)
                                                 (length processedBuffer)) \<rparr>)))))"

text \<open>The failure record of the \<open>catch\<close> block.\<close>

definition failed :: "err \<Rightarrow> ImageProcessResult" where
  "failed e = \<lparr> success = False, url = None, ossKey = None, error = Some e,
                originalSize = None, compressedSize = None, compressionRatio = None \<rparr>"

definition processAndUploadImage ::
  "world \<Rightarrow> js_string \<Rightarrow> js_string option \<Rightarrow> js_string option \<Rightarrow> number option \<Rightarrow>
   ResizeOptions option \<Rightarrow> ImageProcessResult" where
  "processAndUploadImage w imageUrl project fileName q resize =
     (case processAndUploadImage_try w imageUrl project fileName q resize of
        Inl e \<Rightarrow> failed e
      | Inr r \<Rightarrow> r)"

section \<open>Processing a batch\<close>

text \<open>The file name of item number \<open>k\<close> (from 1) of a batch.\<close>

definition batch_fileName :: "world \<Rightarrow> nat \<Rightarrow> js_string" where
  "batch_fileName w k =
     utf16 ''batch-'' @ show_nat k @ utf16 ''-'' @ show_nat (Date_now w) @ utf16 ''.webp''"

text \<open>
  The loop of \<open>processAndUploadImagesBatch\<close>, from index \<open>i\<close> with the results so far.
  Beside the results it returns the slices it has processed, one per iteration, in the
  order of the iterations. With a concurrency of 0 the index never moves and the loop
  does not return: the value \<open>None\<close>.
\<close>

partial_function (option) batch_loop ::
  "world \<Rightarrow> js_string list \<Rightarrow> js_string option \<Rightarrow> number option \<Rightarrow> nat \<Rightarrow>
   ResizeOptions option \<Rightarrow> nat \<Rightarrow> ImageProcessResult list \<Rightarrow> js_string list list \<Rightarrow>
   (ImageProcessResult list \<times> js_string list list) option" where
  "batch_loop w imageUrls project q concurrency resize i results batches =
     (if i < length imageUrls then
        batch_loop w imageUrls project q concurrency resize (i + concurrency)
          (results @
             map (\<lambda>(index, u).
                    processAndUploadImage w u project
                      (Some (batch_fileName w (i + index + 1))) q resize)
                 (enumerate 0 (take concurrency (drop i imageUrls))))
          (batches @ [take concurrency (drop i imageUrls)])
      else Some (results, batches))"

declare batch_loop.simps [code]

text \<open>The default of \<open>concurrency\<close> is 3.\<close>

definition batch_run ::
  "world \<Rightarrow> js_string list \<Rightarrow> js_string option \<Rightarrow> number option \<Rightarrow> nat option \<Rightarrow>
   ResizeOptions option \<Rightarrow> (ImageProcessResult list \<times> js_string list list) option" where
  "batch_run w imageUrls project q concurrency resize =
     batch_loop w imageUrls project q (case concurrency of None \<Rightarrow> 3 | Some c \<Rightarrow> c)
       resize 0 [] []"

definition processAndUploadImagesBatch ::
  "world \<Rightarrow> js_string list \<Rightarrow> js_string option \<Rightarrow> number option \<Rightarrow> nat option \<Rightarrow>
   ResizeOptions option \<Rightarrow> ImageProcessResult list option" where
  "processAndUploadImagesBatch w imageUrls project q concurrency resize =
     map_option fst (batch_run w imageUrls project q concurrency resize)"


section \<open>Generating images\<close>

text \<open>What the function does to the outside, in order; a delay is in milliseconds.\<close>

datatype event = ProviderCall DoubaoSeedreamRequest | Delay nat

record outcome_image =
  img_url :: "js_string option"
  img_ossKey :: "js_string option"
  img_originalSize :: "nat option"
  img_compressedSize :: "nat option"
  img_compressionRatio :: "number option"

record outcome =
  g_success :: bool
  g_urls :: "js_string option list option"
  g_ossKeys :: "js_string list option"
  g_error :: "err option"
  g_images :: "outcome_image list option"

text \<open>Lines 124 to 147: the body of the primary request.\<close>

definition requestBody :: "validated \<Rightarrow> DoubaoSeedreamSize \<Rightarrow> DoubaoSeedreamRequest" where
  "requestBody v apiSize =
     \<lparr> req_model = utf16 ''doubao-seedream-4-0-250828'',
       req_prompt = v_prompt v,
       req_negative_prompt =
         (case v_negative_prompt v of
            Some s \<Rightarrow> if s \<noteq> [] then Some s else None
          | None \<Rightarrow> None),
       req_image =
         (case v_image v of
            Some (OneImage s) \<Rightarrow> if s \<noteq> [] then Some (OneImage s) else None
          | Some (ManyImages ss) \<Rightarrow> Some (ManyImages ss)
          | None \<Rightarrow> None),
       req_size = apiSize,
       req_num_images = Some 2,
       req_sequential_image_generation = Some SeqAuto,
       req_stream = v_stream v,
       req_response_format = utf16 ''url'',
       req_watermark = v_watermark v,
       req_seed = v_seed v,
       req_quality = v_quality v \<rparr>"

text \<open>Lines 205 to 214: the compression quality, read from the caller's parameter.\<close>

definition imageQuality :: "quality_param option \<Rightarrow> number" where
  "imageQuality q =
     (case q of
        None \<Rightarrow> Num 80
      | Some (QNumber n) \<Rightarrow>
          (case n of
             Num x \<Rightarrow> if x = 0 then Num 80 else js_times (Num x) (Num 10)
           | NaN \<Rightarrow> Num 80
           | PosInfinity \<Rightarrow> PosInfinity
           | NegInfinity \<Rightarrow> NegInfinity)
      | Some QStandard \<Rightarrow> Num 80
      | Some QHd \<Rightarrow> Num 95)"

text \<open>
  One iteration of the supplemental loop (lines 226 to 258), the \<open>i\<close>-th from 0: the
  request without \<open>num_images\<close>, then the delay when the iteration is not the last. The
  delay stands inside the \<open>try\<close> block after the request, so an iteration whose request
  or whose \<open>json()\<close> throws goes to the \<open>catch\<close> block and skips it.
\<close>

definition supplemental_step ::
  "world \<Rightarrow> DoubaoSeedreamRequest \<Rightarrow> rat \<Rightarrow> nat \<Rightarrow> js_string list \<times> event list \<Rightarrow>
   js_string list \<times> event list" where
  "supplemental_step w body remainingImages i st =
     (let additionalRequestBody = body \<lparr> req_num_images := None \<rparr>;
          called = snd st @ [ProviderCall additionalRequestBody];
          delayed = called @ (if of_nat i < remainingImages - 1 then [Delay 1000] else [])
      in case provider w (Suc i) additionalRequestBody of
           ProviderRejects e \<Rightarrow> (fst st, called)
         | ProviderNotOk status statusText txt \<Rightarrow> (fst st, delayed)
         | ProviderOk (Inl e) \<Rightarrow> (fst st, called)
         | ProviderOk (Inr None) \<Rightarrow> (fst st, delayed)
         | ProviderOk (Inr (Some [])) \<Rightarrow> (fst st, delayed)
         | ProviderOk (Inr (Some (u # us))) \<Rightarrow> (fst st @ [u], delayed))"

function supplemental_loop ::
  "world \<Rightarrow> DoubaoSeedreamRequest \<Rightarrow> rat \<Rightarrow> nat \<Rightarrow> js_string list \<times> event list \<Rightarrow>
   js_string list \<times> event list" where
  "supplemental_loop w body remainingImages i st =
     (if of_nat i < remainingImages then
        supplemental_loop w body remainingImages (Suc i)
          (supplemental_step w body remainingImages i st)
      else st)"
  by pat_completeness auto
termination
proof (relation "measure (\<lambda>(w, body, remainingImages, i, st). nat \<lceil>remainingImages\<rceil> - i)")
  show "wf (measure (\<lambda>(w, body, remainingImages, i, st). nat \<lceil>remainingImages\<rceil> - i))"
    by simp
next
  fix w :: world and body :: DoubaoSeedreamRequest and remainingImages :: rat and i :: nat
    and st :: "js_string list \<times> event list"
  assume less: "of_nat i < remainingImages"
  have "i < nat \<lceil>remainingImages\<rceil>"
    using less by linarith
  then show "((w, body, remainingImages, Suc i, supplemental_step w body remainingImages i st),
              (w, body, remainingImages, i, st))
             \<in> measure (\<lambda>(w, body, remainingImages, i, st). nat \<lceil>remainingImages\<rceil> - i)"
    by simp
qed

declare supplemental_loop.simps [simp del]

text \<open>What the function has when it reaches the processing step.\<close>

record stage =
  allImageUrls :: "js_string list"
  targetResizeOptions :: "ResizeOptions option"
  uploadQuality :: number

text \<open>
  Lines 84 to 262: validation, the primary request and the supplemental requests. \<open>Inl\<close>
  is the value thrown to the \<open>catch\<close> block; the events are those up to that point.
  An empty \<open>SEED_EDIT_KEY\<close> counts as missing.
\<close>

definition request_stage :: "world \<Rightarrow> params \<Rightarrow> (err + stage) \<times> event list" where
  "request_stage w p =
     (case DoubaoSeedreamInputSchema_parse p of
        Inl e \<Rightarrow> (Inl e, [])
      | Inr v \<Rightarrow>
          if or_default (SEED_EDIT_KEY w) [] = [] then (Inl MissingApiKey, [])
          else
            (let body = requestBody v (fst (resolveSize (v_size v) (resizeOptions p)));
                 called = [ProviderCall body]
             in case provider w 0 body of
                  ProviderRejects e \<Rightarrow> (Inl e, called)
                | ProviderNotOk status statusText txt \<Rightarrow>
                    (case txt of
                       Inl e \<Rightarrow> (Inl e, called)
                     | Inr errorText \<Rightarrow> (Inl (ApiCallFailed status statusText errorText), called))
                | ProviderOk (Inl e) \<Rightarrow> (Inl e, called)
                | ProviderOk (Inr d) \<Rightarrow>
                    (let imageUrls = (case d of None \<Rightarrow> [] | Some us \<Rightarrow> us);
                         requestedImages = (if v_num_images v = 0 then 1 else v_num_images v)
                     in if length imageUrls = 0 then (Inl NoImageUrl, called)
                        else
                          (let st =
                             (if of_nat (length imageUrls) < requestedImages then
                                supplemental_loop w body
                                  (requestedImages - of_nat (length imageUrls)) 0
                                  (imageUrls, called)
                              else (imageUrls, called))
                           in (Inr \<lparr> allImageUrls = fst st,
                                     targetResizeOptions =
                                       snd (resolveSize (v_size v) (resizeOptions p)),
                                     uploadQuality = imageQuality (quality p) \<rparr>,
                               snd st)))))"

text \<open>The value returned from the \<open>catch\<close> block (lines 305 to 313).\<close>

definition failure :: "err \<Rightarrow> outcome" where
  "failure e = \<lparr> g_success = False, g_urls = None, g_ossKeys = None, g_error = Some e,
                 g_images = None \<rparr>"

definition to_image :: "ImageProcessResult \<Rightarrow> outcome_image" where
  "to_image r = \<lparr> img_url = url r, img_ossKey = ossKey r,
                  img_originalSize = originalSize r,
                  img_compressedSize = compressedSize r,
                  img_compressionRatio = compressionRatio r \<rparr>"

text \<open>\<open>filter(Boolean)\<close> on optional strings.\<close>

definition truthy_keys :: "js_string option list \<Rightarrow> js_string list" where
  "truthy_keys ks = concat (map (\<lambda>k. case k of None \<Rightarrow> [] | Some s \<Rightarrow> if s = [] then [] else [s]) ks)"

text \<open>Lines 273 to 303, with the \<open>catch\<close> block for the error thrown at line 276.\<close>

definition finish :: "ImageProcessResult list \<Rightarrow> outcome" where
  "finish processResults =
     (let successfulResults = filter success processResults
      in if length successfulResults = 0 then failure AllProcessingFailed
         else
           (let images = map to_image successfulResults
            in \<lparr> g_success = True,
                 g_urls = Some (map img_url images),
                 g_ossKeys = Some (truthy_keys (map img_ossKey images)),
                 g_error = None,
                 g_images = Some images \<rparr>))"

text \<open>
  \<open>generateDoubaoSeedreamImage\<close>: the returned value and the events. \<open>None\<close> is a call
  that does not return.
\<close>

definition generateDoubaoSeedreamImage :: "world \<Rightarrow> params \<Rightarrow> (outcome \<times> event list) option" where
  "generateDoubaoSeedreamImage w p =
     (case request_stage w p of
        (Inl e, trace) \<Rightarrow> Some (failure e, trace)
      | (Inr s, trace) \<Rightarrow>
          (case processAndUploadImagesBatch w (allImageUrls s) (projectId p)
                  (Some (uploadQuality s)) (Some 3) (targetResizeOptions s) of
             None \<Rightarrow> None
           | Some processResults \<Rightarrow> Some (finish processResults, trace)))"

section \<open>Reference definitions and example inputs\<close>

text \<open>
  Sequential chunks of size \<open>c\<close>, as the specification describes the partition of a
  batch: the first \<open>c\<close> elements, then the chunks of the rest.
\<close>

function chunks :: "nat \<Rightarrow> 'a list \<Rightarrow> 'a list list" where
  "chunks c xs = (if c = 0 \<or> xs = [] then [] else take c xs # chunks c (drop c xs))"
  by pat_completeness auto
termination
  by (relation "measure (\<lambda>(c, xs). length xs)") auto

declare chunks.simps [simp del]

text \<open>The result of the item at index \<open>k\<close> (from 0) of a batch.\<close>

definition item ::
  "world \<Rightarrow> js_string option \<Rightarrow> number option \<Rightarrow> ResizeOptions option \<Rightarrow> nat \<times> js_string \<Rightarrow>
   ImageProcessResult" where
  "item w project q resize =
     (\<lambda>(k, u). processAndUploadImage w u project (Some (batch_fileName w (k + 1))) q resize)"

text \<open>
  An example world: the provider returns two images for the primary request, its first
  supplemental request is rejected by the network and the later ones return one image
  each; the image at the URL \<open>bad\<close> answers 404, every other download gives four bytes
  that are compressed to one.
\<close>

definition example_world :: world where
  "example_world =
     \<lparr> SEED_EDIT_KEY = Some (utf16 ''key''),
       provider = (\<lambda>k body.
          if k = 0 then ProviderOk (Inr (Some [utf16 ''img0'', utf16 ''bad'']))
          else if k = 1 then ProviderRejects (Raised (utf16 ''fetch failed''))
          else ProviderOk (Inr (Some [utf16 ''img2'']))),
       fetch_image = (\<lambda>u.
          if u = utf16 ''bad'' then Responds False 404 (utf16 ''Not Found'') (Inr [])
          else Responds True 200 (utf16 ''OK'') (Inr [1, 2, 3, 4])),
       sharp_webp = (\<lambda>b r q. Inr [7]),
       oss_put = (\<lambda>key b. None),
       signatureUrl = (\<lambda>key expires. Inr (utf16 ''signed:'' @ key)),
       Date_now = 1700000000000,
       random_id = utf16 ''abc123'' \<rparr>"

definition example_params :: params where
  "example_params =
     \<lparr> prompt = utf16 ''autumn hills'',
       negative_prompt = None,
       image = None,
       size = None,
       num_images = None,
       sequential_image_generation = None,
       stream = None,
       watermark = None,
       seed = None,
       projectId = None,
       quality = None,
       resizeOptions = None \<rparr>"

text \<open>Telling the provider requests from the delays in a trace.\<close>

fun is_call :: "event \<Rightarrow> bool" where
  "is_call (ProviderCall body) = True"
| "is_call (Delay ms) = False"

text \<open>
  Supplemental requests \<open>i\<close> to \<open>m - 1\<close> with a delay of one second after each but the
  last: the events of the supplemental loop when no request throws.
\<close>

definition spaced_calls :: "DoubaoSeedreamRequest \<Rightarrow> nat \<Rightarrow> nat \<Rightarrow> event list" where
  "spaced_calls body m i =
     concat (map (\<lambda>j. ProviderCall body # (if Suc j < m then [Delay 1000] else [])) [i..<m])"

text \<open>A supplemental reply that throws inside the \<open>try\<close> block of the loop.\<close>

fun throws :: "provider_reply \<Rightarrow> bool" where
  "throws (ProviderRejects e) = True"
| "throws (ProviderOk (Inl e)) = True"
| "throws _ = False"

section \<open>Rounding to a double\<close>

lemma bits_lower: "0 < n \<Longrightarrow> 2 ^ (bits n - 1) \<le> n"
proof (induction n rule: bits.induct)
  case (1 n)
  show ?case
  proof (cases "n div 2 = 0")
    case True
    with "1.prems" show ?thesis
      by (simp add: bits.simps [of n] bits.simps [of 0])
  next
    case False
    with "1.IH" "1.prems" have "2 ^ (bits (n div 2) - 1) \<le> n div 2"
      by simp
    moreover from False have "0 < bits (n div 2)"
      by (simp add: bits.simps [of "n div 2"])
    ultimately have "2 ^ bits (n div 2) \<le> 2 * (n div 2)"
      by (cases "bits (n div 2)") simp_all
    also have "\<dots> \<le> n"
      by simp
    finally show ?thesis
      using "1.prems" by (simp add: bits.simps [of n])
  qed
qed

lemma bits_upper: "n < 2 ^ bits n"
proof (induction n rule: bits.induct)
  case (1 n)
  show ?case
  proof (cases "n = 0")
    case True
    then show ?thesis by simp
  next
    case False
    with "1.IH" have "n div 2 < 2 ^ bits (n div 2)"
      by simp
    then have "n < 2 * 2 ^ bits (n div 2)"
      by linarith
    with False show ?thesis
      by (simp add: bits.simps [of n])
  qed
qed

lemma bits_ge: "2 ^ k \<le> n \<Longrightarrow> k < bits n"
proof (rule ccontr)
  assume le: "2 ^ k \<le> n" and "\<not> k < bits n"
  then have "bits n \<le> k" by simp
  then have "(2::nat) ^ bits n \<le> 2 ^ k"
    by (simp add: power_increasing)
  then have "2 ^ bits n \<le> n"
    using le by (rule le_trans)
  with bits_upper [of n] show False
    by simp
qed

lemma round_small: "n < 2 ^ 53 \<Longrightarrow> roundToDouble n = Num (of_nat n)"
  by (simp only: roundToDouble_def if_True)

lemma round_unfold:
  assumes "2 ^ 53 \<le> n"
  shows "roundToDouble n =
     (let ulp = 2 ^ (bits n - 53);
               q = n div ulp;
               r = n mod ulp;
               m = (if ulp < 2 * r \<or> (2 * r = ulp \<and> odd q) then q + 1 else q)
           in if 2 ^ 1024 \<le> m * ulp then PosInfinity else Num (of_nat (m * ulp)))"
proof -
  from assms have "\<not> n < 2 ^ 53"
    by (simp only: not_less)
  then show ?thesis
    by (simp only: roundToDouble_def if_False)
qed

lemma round_large:
  assumes "2 ^ 53 \<le> n"
  shows "roundToDouble n = PosInfinity \<or>
         (\<exists>v. roundToDouble n = Num (of_nat v) \<and> 2 ^ (bits n - 1) \<le> v \<and> v < 2 ^ 1024)"
proof -
  define ulp where "ulp = (2::nat) ^ (bits n - 53)"
  define q where "q = n div ulp"
  define r where "r = n mod ulp"
  define m where "m = (if ulp < 2 * r \<or> (2 * r = ulp \<and> odd q) then q + 1 else q)"
  from assms have big: "53 < bits n"
    by (rule bits_ge)
  have "(0::nat) < 2 ^ 53"
    by (rule zero_less_power) simp
  then have "0 < n"
    using assms by (rule less_le_trans)
  then have "2 ^ (bits n - 1) \<le> n"
    by (rule bits_lower)
  moreover from big have "bits n - 1 = 52 + (bits n - 53)"
    by simp
  then have split: "(2::nat) ^ (bits n - 1) = 2 ^ 52 * ulp"
    by (simp only: power_add ulp_def)
  ultimately have "2 ^ 52 * ulp \<le> n"
    by (simp only:)
  moreover have "0 < ulp"
    by (simp add: ulp_def)
  ultimately have "2 ^ 52 \<le> q"
    unfolding q_def by (simp only: less_eq_div_iff_mult_less_eq)
  moreover have "q \<le> m"
    by (simp add: m_def)
  ultimately have "2 ^ 52 \<le> m"
    by (rule le_trans)
  then have "2 ^ 52 * ulp \<le> m * ulp"
    by (rule mult_le_mono1)
  with split have low: "2 ^ (bits n - 1) \<le> m * ulp"
    by (simp only:)
  have unfold: "roundToDouble n = (if 2 ^ 1024 \<le> m * ulp then PosInfinity else Num (of_nat (m * ulp)))"
    by (simp only: round_unfold [OF assms] Let_def ulp_def q_def r_def m_def)
  show ?thesis
  proof (cases "2 ^ 1024 \<le> m * ulp")
    case True
    with unfold have "roundToDouble n = PosInfinity"
      by (simp only: if_True)
    then show ?thesis
      by blast
  next
    case False
    then have "m * ulp < 2 ^ 1024"
      by (simp only: not_le)
    moreover from False unfold have "roundToDouble n = Num (of_nat (m * ulp))"
      by (simp only: if_False)
    ultimately show ?thesis
      using low by blast
  qed
qed


lemma round_overflow:
  assumes "2 ^ 1024 \<le> n"
  shows "roundToDouble n = PosInfinity"
proof -
  have "(2::nat) ^ 53 \<le> 2 ^ 1024"
    by (rule power_increasing) simp_all
  then have "2 ^ 53 \<le> n"
    using assms by (rule le_trans)
  from round_large [OF this] show ?thesis
  proof
    assume "roundToDouble n = PosInfinity"
    then show ?thesis .
  next
    assume "\<exists>v::nat. roundToDouble n = Num (of_nat v) \<and> 2 ^ (bits n - 1) \<le> v \<and> v < 2 ^ 1024"
    then obtain v :: nat where v: "2 ^ (bits n - 1) \<le> v" "v < 2 ^ 1024"
      by blast
    from assms have "1024 < bits n"
      by (rule bits_ge)
    then have "(2::nat) ^ 1024 \<le> 2 ^ (bits n - 1)"
      by (intro power_increasing) simp_all
    then have "2 ^ 1024 \<le> v"
      using v(1) by (rule le_trans)
    with v(2) show ?thesis
      using leD by blast
  qed
qed

lemma of_nat_compare:
  "((2048::rat) < of_nat k \<longleftrightarrow> 2048 < k) \<and> ((0::rat) < of_nat k \<longleftrightarrow> 0 < k)"
proof -
  have "(of_nat 2048 :: rat) < of_nat k \<longleftrightarrow> 2048 < k"
    by (rule of_nat_less_iff)
  moreover have "(of_nat 0 :: rat) < of_nat k \<longleftrightarrow> 0 < k"
    by (rule of_nat_less_iff)
  ultimately show ?thesis
    by simp
qed

lemma round_compare:
  assumes "roundToDouble n = Num v"
  shows "(2048 < v \<longleftrightarrow> 2048 < n) \<and> (0 < v \<longleftrightarrow> 0 < n)"
proof (cases "n < 2 ^ 53")
  case True
  with assms have "v = of_nat n"
    by (simp add: round_small)
  then show ?thesis
    by (simp only: of_nat_compare)
next
  case False
  then have big: "2 ^ 53 \<le> n"
    by simp
  with round_large [OF big] assms obtain k :: nat where k: "v = of_nat k" "2 ^ (bits n - 1) \<le> k"
    by auto
  from big have "53 < bits n"
    by (rule bits_ge)
  then have "(2::nat) ^ 53 \<le> 2 ^ (bits n - 1)"
    by (intro power_increasing) simp_all
  then have "2 ^ 53 \<le> k"
    using k(2) by (rule le_trans)
  then have "2048 < k \<and> 0 < k"
    by simp
  moreover from big have "2048 < n \<and> 0 < n"
    by simp
  ultimately show ?thesis
    using k(1) by (simp only: of_nat_compare)
qed

lemma round_finite:
  assumes "n < 2 ^ 1024 - 2 ^ 970"
  shows "isFinite (roundToDouble n)"
proof (cases "n < 2 ^ 53")
  case True
  then show ?thesis
    by (simp only: round_small isFinite.simps)
next
  case False
  then have big: "2 ^ 53 \<le> n"
    by (simp only: not_less)
  define ulp where "ulp = (2::nat) ^ (bits n - 53)"
  define q where "q = n div ulp"
  define r where "r = n mod ulp"
  define m where "m = (if ulp < 2 * r \<or> (2 * r = ulp \<and> odd q) then q + 1 else q)"
  have unfold: "roundToDouble n = (if 2 ^ 1024 \<le> m * ulp then PosInfinity else Num (of_nat (m * ulp)))"
    by (simp only: round_unfold [OF big] Let_def ulp_def q_def r_def m_def)
  have n_eq: "n = q * ulp + r"
    by (simp add: q_def r_def)
  have below: "n < 2 ^ 1024"
    using assms by (rule less_le_trans) (rule diff_le_self)
  have "bits n \<le> 1024"
  proof (rule ccontr)
    assume "\<not> bits n \<le> 1024"
    then have "1024 \<le> bits n - 1"
      by simp
    then have "(2::nat) ^ 1024 \<le> 2 ^ (bits n - 1)"
      by (intro power_increasing) simp_all
    moreover have "2 ^ (bits n - 1) \<le> n"
      using big by (intro bits_lower) (metis less_le_trans zero_less_numeral zero_less_power)
    ultimately have "2 ^ 1024 \<le> n"
      by (rule le_trans)
    with below show False
      using leD by blast
  qed
  then have "bits n - 53 \<le> 971"
    by simp
  then have ulp_le: "ulp \<le> 2 ^ 971"
    unfolding ulp_def by (intro power_increasing) simp_all
  have "m * ulp < 2 ^ 1024"
  proof (cases "ulp < 2 * r \<or> (2 * r = ulp \<and> odd q)")
    case False
    then have "m = q"
      by (simp only: m_def if_False)
    moreover have "q * ulp \<le> n"
      by (simp add: n_eq)
    ultimately show ?thesis
      using below by simp
  next
    case True
    then have m: "m = q + 1"
      by (simp only: m_def if_True)
    from True have "ulp \<le> 2 * r"
      by auto
    then have "2 * (m * ulp) \<le> 2 * n + ulp"
      by (simp add: m n_eq algebra_simps)
    also have "\<dots> \<le> 2 * n + 2 ^ 971"
      using ulp_le by simp
    also have "\<dots> < 2 * (2 ^ 1024 - 2 ^ 970) + 2 ^ 971"
      using assms by simp
    also have "\<dots> = 2 * 2 ^ 1024"
      by simp
    finally show ?thesis
      by simp
  qed
  then have "\<not> 2 ^ 1024 \<le> m * ulp"
    by (simp only: not_le)
  with unfold have "roundToDouble n = Num (of_nat (m * ulp))"
    by (simp only: if_False)
  then show ?thesis
    by (simp only: isFinite.simps)
qed

lemma bits_le: "n < 2 ^ k \<Longrightarrow> bits n \<le> k"
proof (rule ccontr)
  assume below: "n < 2 ^ k" and above: "\<not> bits n \<le> k"
  have "n \<noteq> 0"
  proof
    assume "n = 0"
    then have "bits n = 0"
      by (simp add: bits.simps [of 0])
    with above show False
      by simp
  qed
  then have "2 ^ (bits n - 1) \<le> n"
    by (intro bits_lower) simp
  moreover from above have "k \<le> bits n - 1"
    by simp
  then have "(2::nat) ^ k \<le> 2 ^ (bits n - 1)"
    by (intro power_increasing) simp_all
  ultimately have "2 ^ k \<le> n"
    by (meson le_trans)
  with below show False
    using leD by blast
qed

text \<open>From \<open>2^1024 - 2^970\<close> on, the rounded value is \<open>2^1024\<close> or more.\<close>

lemma round_infinite:
  assumes "2 ^ 1024 - 2 ^ 970 \<le> n"
  shows "roundToDouble n = PosInfinity"
proof (cases "2 ^ 1024 \<le> n")
  case True
  then show ?thesis
    by (rule round_overflow)
next
  case False
  then have below: "n < 2 ^ 1024"
    by (simp only: not_le)
  have "(2::nat) ^ 1023 \<le> 2 ^ 1024 - 2 ^ 970"
    by simp
  then have above: "2 ^ 1023 \<le> n"
    using assms by (rule le_trans)
  have "(2::nat) ^ 53 \<le> 2 ^ 1023"
    by (rule power_increasing) simp_all
  then have big: "2 ^ 53 \<le> n"
    using above by (rule le_trans)
  from above have "1023 < bits n"
    by (rule bits_ge)
  moreover from below have "bits n \<le> 1024"
    by (rule bits_le)
  ultimately have b: "bits n - 53 = 971"
    by simp
  define ulp where "ulp = (2::nat) ^ (bits n - 53)"
  define q where "q = n div ulp"
  define r where "r = n mod ulp"
  define m where "m = (if ulp < 2 * r \<or> (2 * r = ulp \<and> odd q) then q + 1 else q)"
  have ulp: "ulp = 2 ^ 971"
    by (simp only: ulp_def b)
  have unfold: "roundToDouble n = (if 2 ^ 1024 \<le> m * ulp then PosInfinity else Num (of_nat (m * ulp)))"
    by (simp only: round_unfold [OF big] Let_def ulp_def q_def r_def m_def)
  have "(2 ^ 53 - 1) * 2 ^ 971 + 2 ^ 970 = (2::nat) ^ 1024 - 2 ^ 970"
    by simp
  with assms have low: "(2 ^ 53 - 1) * 2 ^ 971 + 2 ^ 970 \<le> n"
    by (simp only:)
  have "(2 ^ 53 - 1) * 2 ^ 971 \<le> n"
    using low by (rule add_leD1)
  moreover have "n < Suc (2 ^ 53 - 1) * 2 ^ 971"
    using below by simp
  ultimately have q: "q = 2 ^ 53 - 1"
    unfolding q_def ulp by (intro div_nat_eqI) (simp_all add: mult.commute)
  have "n = q * ulp + r"
    by (simp add: q_def r_def)
  with low have "2 ^ 970 \<le> r"
    by (simp only: q ulp add_le_cancel_left)
  then have "ulp \<le> 2 * r"
    by (simp add: ulp)
  moreover have "odd q"
    by (simp add: q)
  ultimately have "m = q + 1"
    by (auto simp: m_def)
  then have "m * ulp = 2 ^ 1024"
    by (simp add: q ulp)
  with unfold show ?thesis
    by (simp only: le_refl if_True)
qed

lemma round_finite_iff: "isFinite (roundToDouble n) \<longleftrightarrow> n < 2 ^ 1024 - 2 ^ 970"
proof
  assume "isFinite (roundToDouble n)"
  then show "n < 2 ^ 1024 - 2 ^ 970"
    using round_infinite [of n] by (cases "n < 2 ^ 1024 - 2 ^ 970") simp_all
next
  assume "n < 2 ^ 1024 - 2 ^ 970"
  then show "isFinite (roundToDouble n)"
    by (rule round_finite)
qed

section \<open>Arithmetic in doubles\<close>

lemma bits_numeral:
  "bits 0 = 0" "bits (Suc 0) = Suc 0" "bits (numeral k) = Suc (bits (numeral k div 2))"
  by (simp_all add: bits.simps [of 0] bits.simps [of "Suc 0"] bits.simps [of "numeral k"])

lemma to_double_not_NaN: "to_double x \<noteq> NaN"
  by (simp add: to_double_def split: option.splits)

lemma minus_not_NaN: "js_minus (Num a) (Num b) \<noteq> NaN"
  by (simp add: to_double_not_NaN)

lemma divide_not_NaN: "y \<noteq> NaN \<Longrightarrow> b \<noteq> 0 \<Longrightarrow> js_divide y (Num b) \<noteq> NaN"
  by (cases y) (simp_all add: to_double_not_NaN)

lemma times_not_NaN: "y \<noteq> NaN \<Longrightarrow> b \<noteq> 0 \<Longrightarrow> js_times y (Num b) \<noteq> NaN"
  by (cases y) (simp_all add: to_double_not_NaN)

text \<open>With a positive original size the ratio is a number.\<close>

lemma ratio_not_NaN:
  assumes "0 < original"
  shows "js_times
           (js_divide (js_minus (Num (of_nat original)) (Num (of_nat compressed)))
              (Num (of_nat original)))
           (Num 100) \<noteq> NaN"
proof -
  from assms have "(of_nat original :: rat) \<noteq> 0"
    by simp
  then have "js_divide (js_minus (Num (of_nat original)) (Num (of_nat compressed)))
               (Num (of_nat original)) \<noteq> NaN"
    by (intro divide_not_NaN minus_not_NaN)
  then show ?thesis
    by (intro times_not_NaN) simp_all
qed

text \<open>Without the guard, 0 bytes compressed to 0 bytes would give \<open>NaN\<close>.\<close>

lemma unguarded_ratio_at_0:
  "js_times (js_divide (js_minus (Num 0) (Num 0)) (Num 0)) (Num 100) = NaN"
  by (simp add: to_double_def)

lemma ratio_4_1: "compression_ratio 4 1 = Num 75"
  by code_simp

lemma ratio_4_1_Suc: "compression_ratio (Suc (Suc (Suc (Suc 0)))) (Suc 0) = Num 75"
  using ratio_4_1 by (simp add: eval_nat_numeral)

text \<open>
  The ratio is rounded as the code rounds it: 3 bytes compressed to 1 give the double
  that prints as 66.66666666666666, not 200/3.
\<close>

lemma ratio_3_1: "compression_ratio 3 1 = Num (2345624805922133 / 35184372088832)"
  by code_simp


section \<open>Size strings\<close>

lemma digit_not_x: "isDigit c \<Longrightarrow> \<not> isX c"
  by (auto simp: isDigit_def isX_def word_le_nat_alt)

lemma digit_not_space: "isDigit c \<Longrightarrow> \<not> isStrWhiteSpace c"
  by (auto simp: isDigit_def isStrWhiteSpace_def word_le_nat_alt)

lemma digit_not_sign: "isDigit c \<Longrightarrow> c \<noteq> 0x2D \<and> c \<noteq> 0x2B \<and> c \<noteq> 0x78"
  by (auto simp: isDigit_def word_le_nat_alt)

lemma digit_lower: "isDigit c \<Longrightarrow> \<not> (0x41 \<le> c \<and> c \<le> 0x5A)"
  by (auto simp: isDigit_def word_le_nat_alt)

lemma lower_digits: "list_all isDigit ds \<Longrightarrow> toLowerCase ds = ds"
  by (induction ds) (auto simp: toLowerCase_def digit_lower)

lemma lower_x: "isX x \<Longrightarrow> toLowerCase [x] = [0x78]"
  by (auto simp: toLowerCase_def isX_def)

lemma split_no_sep: "sep \<notin> set cs \<Longrightarrow> js_split sep cs = [cs]"
  by (induction cs) auto

lemma split_at_sep: "sep \<notin> set ws \<Longrightarrow> js_split sep (ws @ sep # hs) = ws # js_split sep hs"
  by (induction ws) auto

lemma digits_no_x: "list_all isDigit ds \<Longrightarrow> 0x78 \<notin> set ds"
  using digit_not_sign by (auto simp: list_all_iff)

lemma split_size:
  assumes "list_all isDigit ws" and "list_all isDigit hs" and "isX x"
  shows "js_split 0x78 (toLowerCase (ws @ x # hs)) = [ws, hs]"
proof -
  have "toLowerCase (ws @ x # hs) = toLowerCase ws @ toLowerCase [x] @ toLowerCase hs"
    by (simp add: toLowerCase_def)
  with assms have "toLowerCase (ws @ x # hs) = ws @ 0x78 # hs"
    by (simp add: lower_digits lower_x)
  with assms show ?thesis
    by (simp add: split_at_sep split_no_sep digits_no_x)
qed

lemma takeWhile_digits:
  "list_all isDigit ws \<Longrightarrow> isX x \<Longrightarrow> takeWhile isDigit (ws @ x # hs) = ws"
  by (induction ws) (auto simp: digit_not_x)

lemma dropWhile_digits:
  "list_all isDigit ws \<Longrightarrow> isX x \<Longrightarrow> dropWhile isDigit (ws @ x # hs) = x # hs"
  by (induction ws) (auto simp: digit_not_x)

lemma pattern_of_parts:
  assumes "ws \<noteq> []" and "list_all isDigit ws" and "hs \<noteq> []" and "list_all isDigit hs" and "isX x"
  shows "size_pattern (ws @ x # hs)"
  using assms by (simp add: size_pattern_def takeWhile_digits dropWhile_digits)

lemma pattern_parts:
  assumes "size_pattern s"
  shows "\<exists>ws x hs. s = ws @ x # hs \<and> ws \<noteq> [] \<and> list_all isDigit ws \<and> hs \<noteq> [] \<and>
                    list_all isDigit hs \<and> isX x"
proof -
  from assms obtain x hs where rest: "dropWhile isDigit s = x # hs" and x: "isX x"
    and hs: "hs \<noteq> []" "list_all isDigit hs" and ws: "takeWhile isDigit s \<noteq> []"
    by (auto simp: size_pattern_def split: list.splits)
  have "s = takeWhile isDigit s @ dropWhile isDigit s"
    by simp
  with rest have "s = takeWhile isDigit s @ x # hs"
    by simp
  moreover have "list_all isDigit (takeWhile isDigit s)"
    by (simp add: list_all_iff) (meson set_takeWhileD)
  ultimately show ?thesis
    using x hs ws by blast
qed

lemma size_pattern_iff:
  "size_pattern s \<longleftrightarrow>
     (\<exists>ws x hs. s = ws @ x # hs \<and> ws \<noteq> [] \<and> list_all isDigit ws \<and> hs \<noteq> [] \<and>
                 list_all isDigit hs \<and> isX x)"
  using pattern_parts [of s] pattern_of_parts by blast

lemma parseInt_digits:
  assumes "ds \<noteq> []" and "list_all isDigit ds"
  shows "parseInt (Some ds) = roundToDouble (digitsValue ds)"
proof -
  from assms obtain c cs where ds: "ds = c # cs" and c: "isDigit c"
    by (cases ds) auto
  have "takeWhile isDigit ds = ds"
    using assms by (simp add: list_all_iff)
  moreover have "dropWhile isStrWhiteSpace ds = ds"
    using ds c by (simp add: digit_not_space)
  moreover have "hd ds \<noteq> 0x2D \<and> hd ds \<noteq> 0x2B"
    using ds c digit_not_sign by simp
  ultimately show ?thesis
    using assms by (simp add: parseInt_def Let_def del: takeWhile_eq_all_conv)
qed

lemma resolve_parts:
  assumes "ws \<noteq> []" and "list_all isDigit ws" and "hs \<noteq> []" and "list_all isDigit hs" and "isX x"
  shows "resolveSize (ws @ x # hs) r =
     (let wd = roundToDouble (digitsValue ws); ht = roundToDouble (digitsValue hs)
      in if isFinite wd \<and> isFinite ht \<and> gt wd (Num 0) \<and> gt ht (Num 0) then
              (if gt (Math_max wd ht) (Num 2048) then Size4K else Size2K,
               case r of
                 None \<Rightarrow> Some \<lparr> width = Some wd, height = Some ht,
                                fit = Some (utf16 ''cover''), position = Some (utf16 ''center'') \<rparr>
               | Some r' \<Rightarrow> Some r')
            else (Size2K, r))"
  using assms
  by (cases r)
     (simp_all add: resolveSize_def pattern_of_parts split_size element_def parseInt_digits Let_def)

lemma digitsValue_snoc: "digitsValue (ds @ [d]) = 10 * digitsValue ds + (unat d - 48)"
  by (simp add: digitsValue_def)

lemma digitsValue_nines: "digitsValue (replicate n 0x39) = 10 ^ n - 1"
proof (induction n)
  case 0
  then show ?case by (simp add: digitsValue_def)
next
  case (Suc n)
  have "replicate (Suc n) (0x39 :: 16 word) = replicate n 0x39 @ [0x39]"
    by (simp add: replicate_append_same)
  then have "digitsValue (replicate (Suc n) 0x39) = 10 * digitsValue (replicate n 0x39) + 9"
    by (simp only: digitsValue_snoc) simp
  also have "\<dots> = 10 * (10 ^ n - 1) + 9"
    by (simp only: Suc.IH)
  also have "\<dots> = 10 ^ Suc n - 1"
  proof -
    have "(1::nat) \<le> 10 ^ n"
      by simp
    then show ?thesis
      by (simp add: algebra_simps)
  qed
  finally show ?case .
qed

lemma tier_from_values:
  assumes "ws \<noteq> []" and "list_all isDigit ws" and "hs \<noteq> []" and "list_all isDigit hs" and "isX x"
    and "0 < digitsValue ws" and "digitsValue ws < 2 ^ 1024 - 2 ^ 970"
    and "0 < digitsValue hs" and "digitsValue hs < 2 ^ 1024 - 2 ^ 970"
  shows "fst (resolveSize (ws @ x # hs) r) =
           (if 2048 < max (digitsValue ws) (digitsValue hs) then Size4K else Size2K)"
proof -
  from round_finite [OF assms(7)] obtain a where a: "roundToDouble (digitsValue ws) = Num a"
    by (cases "roundToDouble (digitsValue ws)") simp_all
  from round_finite [OF assms(9)] obtain b where b: "roundToDouble (digitsValue hs) = Num b"
    by (cases "roundToDouble (digitsValue hs)") simp_all
  from round_compare [OF a] assms(6) have ca: "(2048 < a \<longleftrightarrow> 2048 < digitsValue ws)" "0 < a"
    by simp_all
  from round_compare [OF b] assms(8) have cb: "(2048 < b \<longleftrightarrow> 2048 < digitsValue hs)" "0 < b"
    by simp_all
  have "2048 < max a b \<longleftrightarrow> 2048 < max (digitsValue ws) (digitsValue hs)"
    using ca(1) cb(1) by (simp add: less_max_iff_disj)
  then show ?thesis
    using ca(2) cb(2)
    by (simp add: resolve_parts [OF assms(1-5)] a b Let_def)
qed

lemma fallback_from_values:
  assumes "ws \<noteq> []" and "list_all isDigit ws" and "hs \<noteq> []" and "list_all isDigit hs" and "isX x"
    and "digitsValue ws = 0 \<or> digitsValue hs = 0 \<or> 2 ^ 1024 - 2 ^ 970 \<le> digitsValue ws \<or>
         2 ^ 1024 - 2 ^ 970 \<le> digitsValue hs"
  shows "resolveSize (ws @ x # hs) r = (Size2K, r)"
proof -
  have "\<not> (isFinite (roundToDouble (digitsValue ws)) \<and> isFinite (roundToDouble (digitsValue hs)) \<and>
           gt (roundToDouble (digitsValue ws)) (Num 0) \<and> gt (roundToDouble (digitsValue hs)) (Num 0))"
    using assms(6)
  proof (elim disjE)
    assume "digitsValue ws = 0"
    then have "roundToDouble (digitsValue ws) = Num 0"
      by (simp add: round_small)
    then show ?thesis by simp
  next
    assume "digitsValue hs = 0"
    then have "roundToDouble (digitsValue hs) = Num 0"
      by (simp add: round_small)
    then show ?thesis by simp
  next
    assume "2 ^ 1024 - 2 ^ 970 \<le> digitsValue ws"
    then have "roundToDouble (digitsValue ws) = PosInfinity"
      by (rule round_infinite)
    then show ?thesis by simp
  next
    assume "2 ^ 1024 - 2 ^ 970 \<le> digitsValue hs"
    then have "roundToDouble (digitsValue hs) = PosInfinity"
      by (rule round_infinite)
    then show ?thesis by simp
  qed
  then show ?thesis
    by (simp only: resolve_parts [OF assms(1-5)] Let_def if_False)
qed

text \<open>With positive finite dimensions and no resize options of the caller, the directive is derived.\<close>

lemma directive_from_values:
  assumes "ws \<noteq> []" and "list_all isDigit ws" and "hs \<noteq> []" and "list_all isDigit hs" and "isX x"
    and "0 < digitsValue ws" and "digitsValue ws < 2 ^ 1024 - 2 ^ 970"
    and "0 < digitsValue hs" and "digitsValue hs < 2 ^ 1024 - 2 ^ 970"
  shows "snd (resolveSize (ws @ x # hs) None) =
           Some \<lparr> width = Some (roundToDouble (digitsValue ws)),
                  height = Some (roundToDouble (digitsValue hs)),
                  fit = Some (utf16 ''cover''), position = Some (utf16 ''center'') \<rparr>"
proof -
  from round_finite [OF assms(7)] obtain a where a: "roundToDouble (digitsValue ws) = Num a"
    by (cases "roundToDouble (digitsValue ws)") simp_all
  from round_finite [OF assms(9)] obtain b where b: "roundToDouble (digitsValue hs) = Num b"
    by (cases "roundToDouble (digitsValue hs)") simp_all
  from round_compare [OF a] assms(6) have "0 < a"
    by simp
  moreover from round_compare [OF b] assms(8) have "0 < b"
    by simp
  ultimately show ?thesis
    by (simp add: resolve_parts [OF assms(1-5)] a b Let_def)
qed

lemma check_size_parts:
  assumes "ws \<noteq> []" and "list_all isDigit ws" and "hs \<noteq> []" and "list_all isDigit hs" and "isX x"
  shows "check_size (Some (ws @ x # hs)) = []"
  using pattern_of_parts [OF assms] by (simp add: check_size_def)

section \<open>Chunks\<close>

lemma chunks_Nil: "chunks c [] = []"
  by (simp add: chunks.simps)

lemma chunks_step: "0 < c \<Longrightarrow> xs \<noteq> [] \<Longrightarrow> chunks c xs = take c xs # chunks c (drop c xs)"
  by (subst chunks.simps) simp

lemma concat_chunks: "0 < c \<Longrightarrow> concat (chunks c xs) = xs"
proof (induction c xs rule: chunks.induct)
  case (1 c xs)
  then show ?case
    by (cases "xs = []") (simp_all add: chunks_Nil chunks_step)
qed

lemma chunks_nonempty: "b \<in> set (chunks c xs) \<Longrightarrow> b \<noteq> []"
proof (induction c xs rule: chunks.induct)
  case (1 c xs)
  show ?case
  proof (cases "c = 0 \<or> xs = []")
    case True
    with "1.prems" show ?thesis by (subst (asm) chunks.simps) simp
  next
    case False
    with "1.prems" have "b = take c xs \<or> b \<in> set (chunks c (drop c xs))"
      by (simp add: chunks_step)
    with False "1.IH" show ?thesis by auto
  qed
qed

lemma chunks_nth:
  "j < length (chunks c xs) \<Longrightarrow> chunks c xs ! j = take c (drop (j * c) xs)"
proof (induction c xs arbitrary: j rule: chunks.induct)
  case (1 c xs)
  show ?case
  proof (cases "c = 0 \<or> xs = []")
    case True
    with "1.prems" show ?thesis by (subst (asm) chunks.simps) simp
  next
    case False
    then have unfold: "chunks c xs = take c xs # chunks c (drop c xs)"
      by (simp add: chunks_step)
    show ?thesis
    proof (cases j)
      case 0
      with unfold show ?thesis by simp
    next
      case (Suc k)
      with "1.prems" unfold have "k < length (chunks c (drop c xs))" by simp
      with "1.IH" [OF False]
      have "chunks c (drop c xs) ! k = take c (drop (k * c) (drop c xs))"
        by blast
      with Suc unfold show ?thesis by (simp add: add.commute)
    qed
  qed
qed

section \<open>The batch loop returns, with one result per URL\<close>

lemma enumerate_shift:
  "map (\<lambda>(index, u). f (i + index) u) (enumerate 0 xs) = map (\<lambda>(k, u). f k u) (enumerate i xs)"
  by (induction xs arbitrary: i rule: rev_induct) (simp_all add: enumerate_append_eq)

lemma batch_loop_returns:
  assumes "0 < c"
  shows "batch_loop w urls project q c resize i results batches =
         Some (results @ map (item w project q resize) (enumerate i (drop i urls)),
               batches @ chunks c (drop i urls))"
proof (induction "length urls - i" arbitrary: i results batches rule: less_induct)
  case less
  show ?case
  proof (cases "i < length urls")
    case False
    then show ?thesis
      by (subst batch_loop.simps) (simp add: chunks_Nil)
  next
    case True
    let ?b = "take c (drop i urls)"
    have step: "length urls - (i + c) < length urls - i"
      using True assms by simp
    have "map (\<lambda>(index, u). processAndUploadImage w u project
                 (Some (batch_fileName w (i + index + 1))) q resize) (enumerate 0 ?b)
          = map (item w project q resize) (enumerate i ?b)"
      using enumerate_shift [of "\<lambda>k u. processAndUploadImage w u project
                 (Some (batch_fileName w (k + 1))) q resize" i ?b]
      by (simp add: item_def)
    then have here: "map (\<lambda>(index, u). processAndUploadImage w u project
                 (Some (batch_fileName w (Suc (i + index)))) q resize) (enumerate 0 ?b)
          = map (item w project q resize) (enumerate i ?b)"
      by simp
    have split: "enumerate i (drop i urls) = enumerate i ?b @ enumerate (i + c) (drop (i + c) urls)"
    proof -
      have "drop i urls = ?b @ drop c (drop i urls)"
        by (simp only: append_take_drop_id)
      then have "enumerate i (drop i urls)
                 = enumerate i ?b @ enumerate (i + length ?b) (drop c (drop i urls))"
        by (metis enumerate_append_eq)
      moreover have "enumerate (i + length ?b) (drop c (drop i urls))
                     = enumerate (i + c) (drop (i + c) urls)"
      proof (cases "c \<le> length (drop i urls)")
        case True
        then show ?thesis by (simp add: min_def add.commute)
      next
        case False
        then show ?thesis by simp
      qed
      ultimately show ?thesis by simp
    qed
    have ch: "chunks c (drop i urls) = ?b # chunks c (drop (i + c) urls)"
      using True assms by (simp add: chunks_step add.commute)
    show ?thesis
      using True
      by (subst batch_loop.simps) (simp add: less.hyps [OF step] here split ch)
  qed
qed

lemma batch_run_returns:
  assumes "0 < (case concurrency of None \<Rightarrow> 3 | Some c \<Rightarrow> c)"
  shows "batch_run w urls project q concurrency resize =
         Some (map (item w project q resize) (enumerate 0 urls),
               chunks (case concurrency of None \<Rightarrow> 3 | Some c \<Rightarrow> c) urls)"
  using batch_loop_returns [OF assms, of w urls project q resize 0 "[]" "[]"]
  by (simp add: batch_run_def)

lemma batch_returns:
  assumes "0 < (case concurrency of None \<Rightarrow> 3 | Some c \<Rightarrow> c)"
  shows "processAndUploadImagesBatch w urls project q concurrency resize =
         Some (map (item w project q resize) (enumerate 0 urls))"
  by (simp add: processAndUploadImagesBatch_def batch_run_returns [OF assms])

section \<open>The example world\<close>

lemma example_fetch_good:
  "u \<noteq> utf16 ''bad'' \<Longrightarrow>
   fetch_image example_world u = Responds True 200 (utf16 ''OK'') (Inr [1, 2, 3, 4])"
  by (simp add: example_world_def)

lemma example_fetch_bad:
  "fetch_image example_world (utf16 ''bad'') = Responds False 404 (utf16 ''Not Found'') (Inr [])"
  by (simp add: example_world_def)

lemma example_sharp: "sharp_webp example_world b r q = Inr [7]"
  by (simp add: example_world_def)

lemma example_put: "oss_put example_world key b = None"
  by (simp add: example_world_def)

lemma example_sign: "signatureUrl example_world key expires = Inr (utf16 ''signed:'' @ key)"
  by (simp add: example_world_def)

lemma example_item_good:
  "u \<noteq> utf16 ''bad'' \<Longrightarrow>
   processAndUploadImage example_world u project f q r =
     \<lparr> success = True,
       url = Some (utf16 ''signed:'' @ oss_key example_world project f),
       ossKey = Some (oss_key example_world project f),
       error = None, originalSize = Some 4, compressedSize = Some 1,
       compressionRatio = Some (Num 75) \<rparr>"
  by (simp add: processAndUploadImage_def processAndUploadImage_try_def generateSignedImageUrl_def
      Let_def example_fetch_good example_sharp example_put example_sign ratio_4_1_Suc)

lemma example_item_failed:
  "processAndUploadImage example_world (utf16 ''bad'') project f q r =
     failed (DownloadFailed 404 (utf16 ''Not Found''))"
  by (simp add: processAndUploadImage_def processAndUploadImage_try_def example_fetch_bad)

lemma example_item_ok:
  "u \<noteq> utf16 ''bad'' \<Longrightarrow> success (processAndUploadImage example_world u project f q r)"
  by (simp add: example_item_good)

lemma example_item_bad:
  "\<not> success (processAndUploadImage example_world (utf16 ''bad'') project f q r)"
  by (simp add: example_item_failed failed_def)

section \<open>Claims about the batch\<close>

text \<open>
  C3: for every list of URLs and a concurrency above 0, \<open>processAndUploadImagesBatch\<close>
  returns. Its loop takes the list in sequential chunks of the size of the concurrency,
  one chunk per iteration and in the order of the list (chunk \<open>j\<close> is the slice that
  starts at \<open>j * concurrency\<close>, no chunk is empty, together they are the list). The
  results are one per URL, in the order of the URLs: the result at index \<open>k\<close> is the
  result of \<open>processAndUploadImage\<close> on the URL at index \<open>k\<close>, a failure record when
  that item fails, whatever happened to the items before it.
\<close>

theorem batch_chunks_in_order:
  assumes "0 < (case concurrency of None \<Rightarrow> 3 | Some c \<Rightarrow> c)"
  shows "\<exists>results batches.
     batch_run w urls project q concurrency resize = Some (results, batches) \<and>
     processAndUploadImagesBatch w urls project q concurrency resize = Some results \<and>
     length results = length urls \<and>
     (\<forall>k < length urls.
        results ! k = processAndUploadImage w (urls ! k) project
                        (Some (batch_fileName w (k + 1))) q resize) \<and>
     batches = chunks (case concurrency of None \<Rightarrow> 3 | Some c \<Rightarrow> c) urls \<and>
     concat batches = urls \<and>
     (\<forall>j < length batches.
        batches ! j = take (case concurrency of None \<Rightarrow> 3 | Some c \<Rightarrow> c)
                        (drop (j * (case concurrency of None \<Rightarrow> 3 | Some c \<Rightarrow> c)) urls) \<and>
        batches ! j \<noteq> [])"
proof -
  let ?c = "case concurrency of None \<Rightarrow> 3 | Some c \<Rightarrow> c"
  let ?results = "map (item w project q resize) (enumerate 0 urls)"
  have run: "batch_run w urls project q concurrency resize = Some (?results, chunks ?c urls)"
    by (rule batch_run_returns [OF assms])
  have all: "processAndUploadImagesBatch w urls project q concurrency resize = Some ?results"
    by (rule batch_returns [OF assms])
  have len: "length ?results = length urls"
    by simp
  have each: "\<forall>k < length urls.
        ?results ! k = processAndUploadImage w (urls ! k) project
                        (Some (batch_fileName w (k + 1))) q resize"
    by (simp add: item_def nth_enumerate_eq)
  have cat: "concat (chunks ?c urls) = urls"
    by (rule concat_chunks [OF assms])
  have nth: "\<forall>j < length (chunks ?c urls).
        chunks ?c urls ! j = take ?c (drop (j * ?c) urls) \<and> chunks ?c urls ! j \<noteq> []"
    using chunks_nth [of _ ?c urls] chunks_nonempty [of _ ?c urls] nth_mem by blast
  from run all len each cat nth show ?thesis
    by blast
qed

theorem batch_chunks_in_order_witness:
  "\<exists>results batches.
     batch_run example_world [utf16 ''a'', utf16 ''bad'', utf16 ''c''] None None (Some 2) None
       = Some (results, batches) \<and>
     length results = 3 \<and>
     success (results ! 0) \<and> \<not> success (results ! 1) \<and> success (results ! 2) \<and>
     batches = [[utf16 ''a'', utf16 ''bad''], [utf16 ''c'']]"
proof -
  let ?urls = "[utf16 ''a'', utf16 ''bad'', utf16 ''c'']"
  have pos: "0 < (case Some (2::nat) of None \<Rightarrow> 3 | Some c \<Rightarrow> c)"
    by simp
  from batch_chunks_in_order [OF pos, of example_world ?urls None None None]
  obtain results batches where
    run: "batch_run example_world ?urls None None (Some 2) None = Some (results, batches)" and
    len: "length results = length ?urls" and
    each: "\<forall>k < length ?urls. results ! k = processAndUploadImage example_world (?urls ! k) None
                        (Some (batch_fileName example_world (k + 1))) None None" and
    chunked: "batches = chunks 2 ?urls"
    by auto
  from each have r0: "success (results ! 0)"
    by (simp add: example_item_ok utf16_def)
  from each have r1: "\<not> success (results ! 1)"
    by (simp add: example_item_bad)
  from each have r2: "success (results ! 2)"
    by (simp add: example_item_ok utf16_def)
  from chunked have "batches = [[utf16 ''a'', utf16 ''bad''], [utf16 ''c'']]"
    by (simp add: chunks_step chunks_Nil)
  with run len r0 r1 r2 show ?thesis
    by simp
qed

section \<open>Claims about one image\<close>

lemma try_cases:
  "processAndUploadImage_try w u project f q resize = Inr r \<Longrightarrow>
   \<exists>st txt original processed signedUrl.
     fetch_image w u = Responds True st txt (Inr original) \<and> original \<noteq> [] \<and>
     sharp_webp w original resize (case q of None \<Rightarrow> Num 80 | Some x \<Rightarrow> x) = Inr processed \<and>
     oss_put w (oss_key w project f) processed = None \<and>
     signatureUrl w (oss_key w project f) (30 * 24 * 60 * 60) = Inr signedUrl \<and>
     r = \<lparr> success = True, url = Some signedUrl, ossKey = Some (oss_key w project f),
           error = None, originalSize = Some (length original),
           compressedSize = Some (length processed),
           compressionRatio = Some (compression_ratio (length original) (length processed)) \<rparr>"
  by (auto simp: processAndUploadImage_try_def generateSignedImageUrl_def Let_def
      split: download_reply.splits sum.splits if_splits option.splits)

text \<open>
  C7: in every successful result of \<open>processAndUploadImage\<close> the original size is above
  0 and the compression ratio is (originalSize - compressedSize) / originalSize * 100
  as the code computes it, in doubles, and it is not \<open>NaN\<close>. For an original size of
  0 the guarded expression of line 73 gives 0, where the expression without the guard
  would give \<open>NaN\<close> for an empty result; no operation of the expression throws.
\<close>

theorem compression_ratio_of_success:
  "(success (processAndUploadImage w u project f q resize) \<longrightarrow>
      (\<exists>original compressed.
         originalSize (processAndUploadImage w u project f q resize) = Some original \<and>
         compressedSize (processAndUploadImage w u project f q resize) = Some compressed \<and>
         0 < original \<and>
         compressionRatio (processAndUploadImage w u project f q resize) =
           Some (js_times
                   (js_divide (js_minus (Num (of_nat original)) (Num (of_nat compressed)))
                      (Num (of_nat original)))
                   (Num 100)) \<and>
         compressionRatio (processAndUploadImage w u project f q resize) \<noteq> Some NaN)) \<and>
   compression_ratio 0 compressed' = Num 0 \<and>
   js_times (js_divide (js_minus (Num 0) (Num 0)) (Num 0)) (Num 100) = NaN"
proof -
  have zero: "compression_ratio 0 compressed' = Num 0"
    by (simp add: compression_ratio_def)
  have ok: "\<exists>original compressed.
         originalSize (processAndUploadImage w u project f q resize) = Some original \<and>
         compressedSize (processAndUploadImage w u project f q resize) = Some compressed \<and>
         0 < original \<and>
         compressionRatio (processAndUploadImage w u project f q resize) =
           Some (js_times
                   (js_divide (js_minus (Num (of_nat original)) (Num (of_nat compressed)))
                      (Num (of_nat original)))
                   (Num 100)) \<and>
         compressionRatio (processAndUploadImage w u project f q resize) \<noteq> Some NaN"
    if success: "success (processAndUploadImage w u project f q resize)"
  proof (cases "processAndUploadImage_try w u project f q resize")
    case (Inl e)
    with success show ?thesis
      by (simp add: processAndUploadImage_def failed_def)
  next
    case (Inr r)
    from try_cases [OF Inr] obtain original :: buffer and processed :: buffer where
      nonempty: "original \<noteq> []" and
      fields: "originalSize r = Some (length original) \<and>
               compressedSize r = Some (length processed) \<and>
               compressionRatio r = Some (compression_ratio (length original) (length processed))"
      by fastforce
    from fields have r: "originalSize r = Some (length original)"
        "compressedSize r = Some (length processed)"
        "compressionRatio r = Some (compression_ratio (length original) (length processed))"
      by simp_all
    from nonempty have pos: "0 < length original"
      by simp
    then have "compression_ratio (length original) (length processed) =
        js_times
          (js_divide (js_minus (Num (of_nat (length original))) (Num (of_nat (length processed))))
             (Num (of_nat (length original))))
          (Num 100)"
      by (simp add: compression_ratio_def)
    with r pos ratio_not_NaN [OF pos, of "length processed"] Inr show ?thesis
      by (simp add: processAndUploadImage_def)
  qed
  from zero ok unguarded_ratio_at_0 show ?thesis
    by blast
qed

theorem compression_ratio_of_success_witness:
  "success (processAndUploadImage example_world (utf16 ''a'') None None None None) \<and>
   originalSize (processAndUploadImage example_world (utf16 ''a'') None None None None) = Some 4 \<and>
   compressedSize (processAndUploadImage example_world (utf16 ''a'') None None None None) = Some 1 \<and>
   compressionRatio (processAndUploadImage example_world (utf16 ''a'') None None None None)
     = Some (js_times (js_divide (js_minus (Num 4) (Num 1)) (Num 4)) (Num 100)) \<and>
   compressionRatio (processAndUploadImage example_world (utf16 ''a'') None None None None)
     = Some (Num 75)"
proof -
  let ?r = "processAndUploadImage example_world (utf16 ''a'') None None None None"
  have differ: "utf16 ''a'' \<noteq> utf16 ''bad''"
    by (simp add: utf16_def)
  have ok: "success ?r" and o: "originalSize ?r = Some 4" and c: "compressedSize ?r = Some 1"
    and ratio: "compressionRatio ?r = Some (Num 75)"
    by (simp_all add: example_item_good [OF differ])
  from compression_ratio_of_success [of example_world "utf16 ''a''" None None None None] ok o c
  have "compressionRatio ?r
          = Some (js_times (js_divide (js_minus (Num 4) (Num 1)) (Num 4)) (Num 100))"
    by auto
  with ok o c ratio show ?thesis
    by simp
qed

text \<open>
  C8: \<open>processAndUploadImage\<close> returns a record in every case: either
  \<open>{success: false, error}\<close> with no other field, or the record of a processed image.
  Whatever is thrown in its \<open>try\<close> block comes back as the first, with that error: a
  rejected fetch, a response that is not ok, a body that cannot be read, an empty body,
  a failed re-encoding, a failed upload, a failed signing. When every step succeeds the
  result is the second.
\<close>

theorem processAndUploadImage_captures_failures:
  "((\<exists>e. processAndUploadImage w u project f q resize =
           \<lparr> success = False, url = None, ossKey = None, error = Some e,
             originalSize = None, compressedSize = None, compressionRatio = None \<rparr>) \<or>
    (\<exists>signed key original compressed ratio.
         processAndUploadImage w u project f q resize =
           \<lparr> success = True, url = Some signed, ossKey = Some key, error = None,
             originalSize = Some original, compressedSize = Some compressed,
             compressionRatio = Some ratio \<rparr>)) \<and>
   (\<forall>e. processAndUploadImage_try w u project f q resize = Inl e \<longrightarrow>
      processAndUploadImage w u project f q resize =
        \<lparr> success = False, url = None, ossKey = None, error = Some e,
          originalSize = None, compressedSize = None, compressionRatio = None \<rparr>) \<and>
   (fetch_image w u = FetchRejects e1 \<longrightarrow>
      processAndUploadImage w u project f q resize =
        \<lparr> success = False, url = None, ossKey = None, error = Some e1,
          originalSize = None, compressedSize = None, compressionRatio = None \<rparr>) \<and>
   (fetch_image w u = Responds False st stx body \<longrightarrow>
      processAndUploadImage w u project f q resize =
        \<lparr> success = False, url = None, ossKey = None, error = Some (DownloadFailed st stx),
          originalSize = None, compressedSize = None, compressionRatio = None \<rparr>) \<and>
   (fetch_image w u = Responds True st stx (Inl e2) \<longrightarrow>
      processAndUploadImage w u project f q resize =
        \<lparr> success = False, url = None, ossKey = None, error = Some e2,
          originalSize = None, compressedSize = None, compressionRatio = None \<rparr>) \<and>
   (fetch_image w u = Responds True st stx (Inr []) \<longrightarrow>
      processAndUploadImage w u project f q resize =
        \<lparr> success = False, url = None, ossKey = None, error = Some EmptyImageData,
          originalSize = None, compressedSize = None, compressionRatio = None \<rparr>) \<and>
   (fetch_image w u = Responds True st stx (Inr original) \<and> original \<noteq> [] \<and>
    sharp_webp w original resize (case q of None \<Rightarrow> Num 80 | Some x \<Rightarrow> x) = Inl e3 \<longrightarrow>
      processAndUploadImage w u project f q resize =
        \<lparr> success = False, url = None, ossKey = None, error = Some e3,
          originalSize = None, compressedSize = None, compressionRatio = None \<rparr>) \<and>
   (fetch_image w u = Responds True st stx (Inr original) \<and> original \<noteq> [] \<and>
    sharp_webp w original resize (case q of None \<Rightarrow> Num 80 | Some x \<Rightarrow> x) = Inr processed \<and>
    oss_put w (oss_key w project f) processed = Some e4 \<longrightarrow>
      processAndUploadImage w u project f q resize =
        \<lparr> success = False, url = None, ossKey = None, error = Some e4,
          originalSize = None, compressedSize = None, compressionRatio = None \<rparr>) \<and>
   (fetch_image w u = Responds True st stx (Inr original) \<and> original \<noteq> [] \<and>
    sharp_webp w original resize (case q of None \<Rightarrow> Num 80 | Some x \<Rightarrow> x) = Inr processed \<and>
    oss_put w (oss_key w project f) processed = None \<and>
    signatureUrl w (oss_key w project f) (30 * 24 * 60 * 60) = Inl e5 \<longrightarrow>
      processAndUploadImage w u project f q resize =
        \<lparr> success = False, url = None, ossKey = None, error = Some (SignedUrlFailed e5),
          originalSize = None, compressedSize = None, compressionRatio = None \<rparr>) \<and>
   (fetch_image w u = Responds True st stx (Inr original) \<and> original \<noteq> [] \<and>
    sharp_webp w original resize (case q of None \<Rightarrow> Num 80 | Some x \<Rightarrow> x) = Inr processed \<and>
    oss_put w (oss_key w project f) processed = None \<and>
    signatureUrl w (oss_key w project f) (30 * 24 * 60 * 60) = Inr signedUrl \<longrightarrow>
      processAndUploadImage w u project f q resize =
        \<lparr> success = True, url = Some signedUrl, ossKey = Some (oss_key w project f),
          error = None, originalSize = Some (length original),
          compressedSize = Some (length processed),
          compressionRatio = Some (compression_ratio (length original) (length processed)) \<rparr>)"
proof -
  have shape: "(\<exists>e. processAndUploadImage w u project f q resize =
           \<lparr> success = False, url = None, ossKey = None, error = Some e,
             originalSize = None, compressedSize = None, compressionRatio = None \<rparr>) \<or>
    (\<exists>signed key original compressed ratio.
         processAndUploadImage w u project f q resize =
           \<lparr> success = True, url = Some signed, ossKey = Some key, error = None,
             originalSize = Some original, compressedSize = Some compressed,
             compressionRatio = Some ratio \<rparr>)"
  proof (cases "processAndUploadImage_try w u project f q resize")
    case (Inl e)
    then show ?thesis
      by (simp add: processAndUploadImage_def failed_def)
  next
    case (Inr r)
    from try_cases [OF Inr] Inr show ?thesis
      by (auto simp: processAndUploadImage_def)
  qed
  have thrown: "\<forall>e. processAndUploadImage_try w u project f q resize = Inl e \<longrightarrow>
      processAndUploadImage w u project f q resize =
        \<lparr> success = False, url = None, ossKey = None, error = Some e,
          originalSize = None, compressedSize = None, compressionRatio = None \<rparr>"
    by (simp add: processAndUploadImage_def failed_def)
  have 1: "fetch_image w u = FetchRejects e1 \<longrightarrow>
      processAndUploadImage w u project f q resize =
        \<lparr> success = False, url = None, ossKey = None, error = Some e1,
          originalSize = None, compressedSize = None, compressionRatio = None \<rparr>"
    by (simp add: processAndUploadImage_def processAndUploadImage_try_def failed_def)
  have 2: "fetch_image w u = Responds False st stx body \<longrightarrow>
      processAndUploadImage w u project f q resize =
        \<lparr> success = False, url = None, ossKey = None, error = Some (DownloadFailed st stx),
          originalSize = None, compressedSize = None, compressionRatio = None \<rparr>"
    by (simp add: processAndUploadImage_def processAndUploadImage_try_def failed_def)
  have 3: "fetch_image w u = Responds True st stx (Inl e2) \<longrightarrow>
      processAndUploadImage w u project f q resize =
        \<lparr> success = False, url = None, ossKey = None, error = Some e2,
          originalSize = None, compressedSize = None, compressionRatio = None \<rparr>"
    by (simp add: processAndUploadImage_def processAndUploadImage_try_def failed_def)
  have 4: "fetch_image w u = Responds True st stx (Inr []) \<longrightarrow>
      processAndUploadImage w u project f q resize =
        \<lparr> success = False, url = None, ossKey = None, error = Some EmptyImageData,
          originalSize = None, compressedSize = None, compressionRatio = None \<rparr>"
    by (simp add: processAndUploadImage_def processAndUploadImage_try_def failed_def)
  have 5: "fetch_image w u = Responds True st stx (Inr original) \<and> original \<noteq> [] \<and>
    sharp_webp w original resize (case q of None \<Rightarrow> Num 80 | Some x \<Rightarrow> x) = Inl e3 \<longrightarrow>
      processAndUploadImage w u project f q resize =
        \<lparr> success = False, url = None, ossKey = None, error = Some e3,
          originalSize = None, compressedSize = None, compressionRatio = None \<rparr>"
    by (simp add: processAndUploadImage_def processAndUploadImage_try_def failed_def)
  have 6: "fetch_image w u = Responds True st stx (Inr original) \<and> original \<noteq> [] \<and>
    sharp_webp w original resize (case q of None \<Rightarrow> Num 80 | Some x \<Rightarrow> x) = Inr processed \<and>
    oss_put w (oss_key w project f) processed = Some e4 \<longrightarrow>
      processAndUploadImage w u project f q resize =
        \<lparr> success = False, url = None, ossKey = None, error = Some e4,
          originalSize = None, compressedSize = None, compressionRatio = None \<rparr>"
    by (simp add: processAndUploadImage_def processAndUploadImage_try_def failed_def)
  have 7: "fetch_image w u = Responds True st stx (Inr original) \<and> original \<noteq> [] \<and>
    sharp_webp w original resize (case q of None \<Rightarrow> Num 80 | Some x \<Rightarrow> x) = Inr processed \<and>
    oss_put w (oss_key w project f) processed = None \<and>
    signatureUrl w (oss_key w project f) (30 * 24 * 60 * 60) = Inl e5 \<longrightarrow>
      processAndUploadImage w u project f q resize =
        \<lparr> success = False, url = None, ossKey = None, error = Some (SignedUrlFailed e5),
          originalSize = None, compressedSize = None, compressionRatio = None \<rparr>"
    by (simp add: processAndUploadImage_def processAndUploadImage_try_def
        generateSignedImageUrl_def failed_def)
  have 8: "fetch_image w u = Responds True st stx (Inr original) \<and> original \<noteq> [] \<and>
    sharp_webp w original resize (case q of None \<Rightarrow> Num 80 | Some x \<Rightarrow> x) = Inr processed \<and>
    oss_put w (oss_key w project f) processed = None \<and>
    signatureUrl w (oss_key w project f) (30 * 24 * 60 * 60) = Inr signedUrl \<longrightarrow>
      processAndUploadImage w u project f q resize =
        \<lparr> success = True, url = Some signedUrl, ossKey = Some (oss_key w project f),
          error = None, originalSize = Some (length original),
          compressedSize = Some (length processed),
          compressionRatio = Some (compression_ratio (length original) (length processed)) \<rparr>"
    by (simp add: processAndUploadImage_def processAndUploadImage_try_def generateSignedImageUrl_def)
  from shape thrown 1 2 3 4 5 6 7 8 show ?thesis
    by blast
qed

theorem processAndUploadImage_captures_failures_witness:
  "processAndUploadImage example_world (utf16 ''bad'') None None None None
     = \<lparr> success = False, url = None, ossKey = None,
         error = Some (DownloadFailed 404 (utf16 ''Not Found'')),
         originalSize = None, compressedSize = None, compressionRatio = None \<rparr> \<and>
   processAndUploadImage example_world (utf16 ''a'') None None None None
     = \<lparr> success = True,
         url = Some (utf16 ''signed:'' @ oss_key example_world None None),
         ossKey = Some (oss_key example_world None None),
         error = None, originalSize = Some 4, compressedSize = Some 1,
         compressionRatio = Some (Num 75) \<rparr>"
proof -
  have differ: "utf16 ''a'' \<noteq> utf16 ''bad''"
    by (simp add: utf16_def)
  have good: "fetch_image example_world (utf16 ''a'')
                = Responds True 200 (utf16 ''OK'') (Inr [1, 2, 3, 4])
      \<and> [1, 2, 3, 4] \<noteq> ([] :: buffer)
      \<and> sharp_webp example_world [1, 2, 3, 4] None (case None of None \<Rightarrow> Num 80 | Some x \<Rightarrow> x)
          = Inr [7]
      \<and> oss_put example_world (oss_key example_world None None) [7] = None
      \<and> signatureUrl example_world (oss_key example_world None None) (30 * 24 * 60 * 60)
          = Inr (utf16 ''signed:'' @ oss_key example_world None None)"
    by (simp add: example_fetch_good [OF differ] example_sharp example_put example_sign)
  from processAndUploadImage_captures_failures
         [of example_world "utf16 ''bad''" None None None None _ 404 "utf16 ''Not Found''" "Inr []"]
       example_fetch_bad
  have 1: "processAndUploadImage example_world (utf16 ''bad'') None None None None
     = \<lparr> success = False, url = None, ossKey = None,
         error = Some (DownloadFailed 404 (utf16 ''Not Found'')),
         originalSize = None, compressedSize = None, compressionRatio = None \<rparr>"
    by blast
  from processAndUploadImage_captures_failures
         [of example_world "utf16 ''a''" None None None None _ 200 "utf16 ''OK''" _ _
             "[1, 2, 3, 4]" _ "[7]" _ _ "utf16 ''signed:'' @ oss_key example_world None None"]
       good
  have 2: "processAndUploadImage example_world (utf16 ''a'') None None None None
     = \<lparr> success = True,
         url = Some (utf16 ''signed:'' @ oss_key example_world None None),
         ossKey = Some (oss_key example_world None None),
         error = None, originalSize = Some (length [1::8 word, 2, 3, 4]),
         compressedSize = Some (length [7 :: 8 word]),
         compressionRatio =
           Some (compression_ratio (length [1::8 word, 2, 3, 4]) (length [7 :: 8 word])) \<rparr>"
    by blast
  from 1 2 show ?thesis
    by (simp add: ratio_4_1_Suc)
qed

section \<open>Claims about the generation call\<close>

lemma finish_success_iff: "g_success (finish rs) \<longleftrightarrow> (\<exists>r \<in> set rs. success r)"
  by (auto simp: finish_def failure_def Let_def filter_empty_conv)

lemma finish_all_failed: "(\<forall>r \<in> set rs. \<not> success r) \<Longrightarrow> finish rs = failure AllProcessingFailed"
  by (simp add: finish_def Let_def filter_empty_conv)

lemma finish_some_ok:
  "\<exists>r \<in> set rs. success r \<Longrightarrow>
   finish rs = \<lparr> g_success = True,
                 g_urls = Some (map url (filter success rs)),
                 g_ossKeys = Some (truthy_keys (map ossKey (filter success rs))),
                 g_error = None,
                 g_images = Some (map to_image (filter success rs)) \<rparr>"
  by (auto simp: finish_def Let_def filter_empty_conv to_image_def comp_def)

lemma generate_after_stage:
  assumes "request_stage w p = (Inr s, tr)"
  shows "generateDoubaoSeedreamImage w p =
         Some (finish (map (item w (projectId p) (Some (uploadQuality s)) (targetResizeOptions s))
                          (enumerate 0 (allImageUrls s))), tr)"
  using assms by (simp add: generateDoubaoSeedreamImage_def batch_returns)

lemma generate_thrown:
  assumes "request_stage w p = (Inl e, tr)"
  shows "generateDoubaoSeedreamImage w p = Some (failure e, tr)"
  using assms by (simp add: generateDoubaoSeedreamImage_def)

lemma example_issues: "issues example_params = []"
  by (simp add: issues_def example_params_def check_prompt_def check_negative_prompt_def
      check_size_def check_optional_number_def check_quality_def utf16_def)

lemma example_parse:
  "DoubaoSeedreamInputSchema_parse example_params =
     Inr \<lparr> v_prompt = utf16 ''autumn hills'', v_negative_prompt = None, v_image = None,
           v_size = utf16 ''2K'', v_num_images = 1, v_sequential_image_generation = SeqDisabled,
           v_stream = False, v_watermark = False, v_seed = None, v_quality = None \<rparr>"
  by (simp add: DoubaoSeedreamInputSchema_parse_def example_issues) (simp add: example_params_def)

lemma example_stage:
  "\<exists>tr. request_stage example_world example_params =
     (Inr \<lparr> allImageUrls = [utf16 ''img0'', utf16 ''bad''], targetResizeOptions = None,
            uploadQuality = Num 80 \<rparr>, tr)"
  by (simp add: request_stage_def example_parse)
     (simp add: example_world_def example_params_def or_default_def utf16_def resolveSize_def
        size_pattern_def isDigit_def imageQuality_def)

text \<open>
  C2: when \<open>generateDoubaoSeedreamImage\<close> reaches the processing step, the batch
  returns one result per raw URL and the call returns with \<open>success = true\<close> exactly
  when at least one of these results is a success. When none is, the call returns
  \<open>success = false\<close> with the error that all image processing failed and no other
  field, although the provider call succeeded. When some are, \<open>urls\<close> and \<open>images\<close>
  are those of the successful results, in their order, and of no others.
\<close>

theorem success_iff_some_image_processed:
  assumes "request_stage w p = (Inr s, tr)"
  shows "\<exists>results out.
     processAndUploadImagesBatch w (allImageUrls s) (projectId p) (Some (uploadQuality s))
       (Some 3) (targetResizeOptions s) = Some results \<and>
     length results = length (allImageUrls s) \<and>
     generateDoubaoSeedreamImage w p = Some (out, tr) \<and>
     (g_success out \<longleftrightarrow> (\<exists>r \<in> set results. success r)) \<and>
     ((\<forall>r \<in> set results. \<not> success r) \<longrightarrow>
        out = \<lparr> g_success = False, g_urls = None, g_ossKeys = None,
                g_error = Some AllProcessingFailed, g_images = None \<rparr>) \<and>
     ((\<exists>r \<in> set results. success r) \<longrightarrow>
        g_urls out = Some (map url (filter success results)) \<and>
        g_images out = Some (map to_image (filter success results)) \<and>
        g_error out = None)"
proof -
  let ?results = "map (item w (projectId p) (Some (uploadQuality s)) (targetResizeOptions s))
                    (enumerate 0 (allImageUrls s))"
  have batch: "processAndUploadImagesBatch w (allImageUrls s) (projectId p)
                 (Some (uploadQuality s)) (Some 3) (targetResizeOptions s) = Some ?results"
    by (simp add: batch_returns)
  have len: "length ?results = length (allImageUrls s)"
    by simp
  have gen: "generateDoubaoSeedreamImage w p = Some (finish ?results, tr)"
    by (rule generate_after_stage [OF assms])
  have iff: "g_success (finish ?results) \<longleftrightarrow> (\<exists>r \<in> set ?results. success r)"
    by (rule finish_success_iff)
  have none: "(\<forall>r \<in> set ?results. \<not> success r) \<longrightarrow>
        finish ?results = \<lparr> g_success = False, g_urls = None, g_ossKeys = None,
                g_error = Some AllProcessingFailed, g_images = None \<rparr>"
    using finish_all_failed [of ?results] by (simp add: failure_def)
  have some: "(\<exists>r \<in> set ?results. success r) \<longrightarrow>
        g_urls (finish ?results) = Some (map url (filter success ?results)) \<and>
        g_images (finish ?results) = Some (map to_image (filter success ?results)) \<and>
        g_error (finish ?results) = None"
    using finish_some_ok [of ?results] by auto
  from batch len gen iff none some show ?thesis
    by blast
qed

theorem success_iff_some_image_processed_witness:
  "\<exists>tr out.
     request_stage example_world example_params =
       (Inr \<lparr> allImageUrls = [utf16 ''img0'', utf16 ''bad''], targetResizeOptions = None,
              uploadQuality = Num 80 \<rparr>, tr) \<and>
     generateDoubaoSeedreamImage example_world example_params = Some (out, tr) \<and>
     g_success out \<and>
     g_urls out = Some [Some (utf16 ''signed:'' @ oss_key example_world None
                                (Some (batch_fileName example_world 1)))]"
proof -
  let ?s = "\<lparr> allImageUrls = [utf16 ''img0'', utf16 ''bad''], targetResizeOptions = None,
              uploadQuality = Num 80 \<rparr>"
  from example_stage obtain tr where st: "request_stage example_world example_params = (Inr ?s, tr)"
    by blast
  have proj: "projectId example_params = None"
    by (simp add: example_params_def)
  from success_iff_some_image_processed [OF st]
  obtain results out where
    batch: "processAndUploadImagesBatch example_world [utf16 ''img0'', utf16 ''bad''] None
              (Some (Num 80)) (Some 3) None = Some results" and
    gen: "generateDoubaoSeedreamImage example_world example_params = Some (out, tr)" and
    iff: "g_success out \<longleftrightarrow> (\<exists>r \<in> set results. success r)" and
    some: "(\<exists>r \<in> set results. success r) \<longrightarrow>
             g_urls out = Some (map url (filter success results))"
    by (auto simp: proj)
  have "results = [processAndUploadImage example_world (utf16 ''img0'') None
                     (Some (batch_fileName example_world 1)) (Some (Num 80)) None,
                   processAndUploadImage example_world (utf16 ''bad'') None
                     (Some (batch_fileName example_world 2)) (Some (Num 80)) None]"
    using batch by (auto simp add: batch_returns item_def enumerate_eq_zip upt_rec numeral_2_eq_2)
  moreover have "utf16 ''img0'' \<noteq> utf16 ''bad''"
    by (simp add: utf16_def)
  ultimately have "results = [\<lparr> success = True,
         url = Some (utf16 ''signed:'' @ oss_key example_world None (Some (batch_fileName example_world 1))),
         ossKey = Some (oss_key example_world None (Some (batch_fileName example_world 1))),
         error = None, originalSize = Some 4, compressedSize = Some 1,
         compressionRatio = Some (Num 75) \<rparr>, failed (DownloadFailed 404 (utf16 ''Not Found''))]"
    by (simp add: example_item_good example_item_failed)
  with iff some have "g_success out \<and> g_urls out = Some [Some (utf16 ''signed:'' @ oss_key example_world None
                                (Some (batch_fileName example_world 1)))]"
    by (simp add: failed_def)
  with st gen show ?thesis
    by blast
qed

lemma parse_cases:
  "DoubaoSeedreamInputSchema_parse p = Inl e \<longleftrightarrow> issues p \<noteq> [] \<and> e = ZodError (issues p)"
  by (auto simp: DoubaoSeedreamInputSchema_parse_def)

lemma parse_ok_iff: "(\<exists>v. DoubaoSeedreamInputSchema_parse p = Inr v) \<longleftrightarrow> issues p = []"
  by (auto simp: DoubaoSeedreamInputSchema_parse_def)

lemma stage_invalid:
  "DoubaoSeedreamInputSchema_parse p = Inl e \<Longrightarrow> request_stage w p = (Inl e, [])"
  by (simp add: request_stage_def)

lemma supplemental_step_trace:
  "\<exists>more. snd (supplemental_step w body r i st) = snd st @ ProviderCall (body \<lparr> req_num_images := None \<rparr>) # more"
  by (auto simp: supplemental_step_def Let_def split: provider_reply.splits sum.splits option.splits list.splits)

lemma supplemental_loop_trace:
  "\<exists>more. snd (supplemental_loop w body r i st) = snd st @ more"
proof (induction w body r i st rule: supplemental_loop.induct)
  case (1 w body r i st)
  show ?case
  proof (cases "of_nat i < r")
    case True
    from "1.IH" [OF True] obtain more where
      "snd (supplemental_loop w body r (Suc i) (supplemental_step w body r i st))
       = snd (supplemental_step w body r i st) @ more"
      by blast
    moreover from supplemental_step_trace [of w body r i st] obtain more' where
      "snd (supplemental_step w body r i st) = snd st @ ProviderCall (body \<lparr> req_num_images := None \<rparr>) # more'"
      by blast
    ultimately show ?thesis
      using True by (subst supplemental_loop.simps) simp
  next
    case False
    then show ?thesis
      by (subst supplemental_loop.simps) simp
  qed
qed

lemma stage_primary_first:
  assumes "DoubaoSeedreamInputSchema_parse p = Inr v" and "or_default (SEED_EDIT_KEY w) [] \<noteq> []"
  shows "\<exists>rest. snd (request_stage w p) =
           ProviderCall (requestBody v (fst (resolveSize (v_size v) (resizeOptions p)))) # rest"
proof -
  let ?body = "requestBody v (fst (resolveSize (v_size v) (resizeOptions p)))"
  show ?thesis
  proof (cases "provider w 0 ?body")
    case (ProviderRejects e)
    with assms show ?thesis by (simp add: request_stage_def Let_def)
  next
    case (ProviderNotOk st stxt body)
    with assms show ?thesis by (simp add: request_stage_def Let_def split: sum.splits)
  next
    case (ProviderOk j)
    show ?thesis
    proof (cases j)
      case (Inl e)
      with ProviderOk assms show ?thesis by (simp add: request_stage_def Let_def)
    next
      case (Inr d)
      from supplemental_loop_trace obtain more where
        "snd (supplemental_loop w ?body
               ((if v_num_images v = 0 then 1 else v_num_images v)
                  - of_nat (length (case d of None \<Rightarrow> [] | Some us \<Rightarrow> us))) 0
               (case d of None \<Rightarrow> [] | Some us \<Rightarrow> us, [ProviderCall ?body]))
         = snd (case d of None \<Rightarrow> [] | Some us \<Rightarrow> us, [ProviderCall ?body]) @ more"
        by blast
      with Inr ProviderOk assms show ?thesis
        by (simp add: request_stage_def Let_def)
    qed
  qed
qed

lemma generate_returns:
  "\<exists>out. generateDoubaoSeedreamImage w p = Some (out, snd (request_stage w p))"
proof (cases "request_stage w p")
  case (Pair r tr)
  then show ?thesis
    by (cases r) (simp_all add: generate_thrown generate_after_stage)
qed

text \<open>
  C5: for every request that passes validation, with the API key configured, the first
  thing the call does to the outside is the primary request, and its body has
  \<open>num_images = 2\<close> and \<open>sequential_image_generation = "auto"\<close>, whatever image count
  the caller asked for.
\<close>

theorem primary_request_asks_two:
  assumes "DoubaoSeedreamInputSchema_parse p = Inr v" and "or_default (SEED_EDIT_KEY w) [] \<noteq> []"
  shows "\<exists>out body rest.
     generateDoubaoSeedreamImage w p = Some (out, ProviderCall body # rest) \<and>
     body = requestBody v (fst (resolveSize (v_size v) (resizeOptions p))) \<and>
     req_num_images body = Some 2 \<and>
     req_sequential_image_generation body = Some SeqAuto"
proof -
  from stage_primary_first [OF assms] obtain rest where
    "snd (request_stage w p) =
       ProviderCall (requestBody v (fst (resolveSize (v_size v) (resizeOptions p)))) # rest"
    by blast
  moreover from generate_returns obtain out where
    "generateDoubaoSeedreamImage w p = Some (out, snd (request_stage w p))"
    by blast
  ultimately show ?thesis
    by (simp add: requestBody_def)
qed

lemma example_parse_count:
  "1 \<le> n \<Longrightarrow> n \<le> 4 \<Longrightarrow>
   DoubaoSeedreamInputSchema_parse (example_params \<lparr> num_images := Some (Num n) \<rparr>) =
     Inr \<lparr> v_prompt = utf16 ''autumn hills'', v_negative_prompt = None, v_image = None,
           v_size = utf16 ''2K'', v_num_images = n, v_sequential_image_generation = SeqDisabled,
           v_stream = False, v_watermark = False, v_seed = None, v_quality = None \<rparr>"
  by (simp add: DoubaoSeedreamInputSchema_parse_def issues_def example_params_def check_prompt_def
      check_negative_prompt_def check_size_def check_optional_number_def check_quality_def utf16_def)

lemma example_key: "or_default (SEED_EDIT_KEY example_world) [] \<noteq> []"
  by (simp add: example_world_def or_default_def utf16_def)

theorem primary_request_asks_two_witness:
  "\<exists>out body rest.
     generateDoubaoSeedreamImage example_world (example_params \<lparr> num_images := Some (Num 4) \<rparr>)
       = Some (out, ProviderCall body # rest) \<and>
     req_prompt body = utf16 ''autumn hills'' \<and>
     req_num_images body = Some 2 \<and>
     req_sequential_image_generation body = Some SeqAuto"
proof -
  have parse: "DoubaoSeedreamInputSchema_parse (example_params \<lparr> num_images := Some (Num 4) \<rparr>) =
     Inr \<lparr> v_prompt = utf16 ''autumn hills'', v_negative_prompt = None, v_image = None,
           v_size = utf16 ''2K'', v_num_images = 4, v_sequential_image_generation = SeqDisabled,
           v_stream = False, v_watermark = False, v_seed = None, v_quality = None \<rparr>"
    by (rule example_parse_count) simp_all
  from primary_request_asks_two [OF parse example_key] show ?thesis
    by (auto simp: requestBody_def)
qed

lemma finish_cases: "g_success (finish rs) \<or> finish rs = failure AllProcessingFailed"
  by (simp add: finish_def Let_def)

lemma failure_fields:
  "failure e = \<lparr> g_success = False, g_urls = None, g_ossKeys = None, g_error = Some e,
                 g_images = None \<rparr>"
  by (simp add: failure_def)

lemma generate_eq:
  "generateDoubaoSeedreamImage w p =
     Some (case fst (request_stage w p) of
             Inl e \<Rightarrow> failure e
           | Inr s \<Rightarrow> finish (map (item w (projectId p) (Some (uploadQuality s))
                                     (targetResizeOptions s)) (enumerate 0 (allImageUrls s))),
           snd (request_stage w p))"
proof (cases "request_stage w p")
  case (Pair r tr)
  then show ?thesis
    by (cases r) (simp_all add: generate_thrown generate_after_stage)
qed

lemma stage_no_key:
  "DoubaoSeedreamInputSchema_parse p = Inr v \<Longrightarrow> or_default (SEED_EDIT_KEY w) [] = [] \<Longrightarrow>
   request_stage w p = (Inl MissingApiKey, [])"
  by (simp add: request_stage_def)

lemma stage_primary_thrown:
  assumes "DoubaoSeedreamInputSchema_parse p = Inr v" and "or_default (SEED_EDIT_KEY w) [] \<noteq> []"
  shows "case provider w 0 (requestBody v (fst (resolveSize (v_size v) (resizeOptions p)))) of
           ProviderRejects e \<Rightarrow> fst (request_stage w p) = Inl e
         | ProviderNotOk st stxt (Inl e) \<Rightarrow> fst (request_stage w p) = Inl e
         | ProviderNotOk st stxt (Inr errorText) \<Rightarrow>
             fst (request_stage w p) = Inl (ApiCallFailed st stxt errorText)
         | ProviderOk (Inl e) \<Rightarrow> fst (request_stage w p) = Inl e
         | ProviderOk (Inr None) \<Rightarrow> fst (request_stage w p) = Inl NoImageUrl
         | ProviderOk (Inr (Some [])) \<Rightarrow> fst (request_stage w p) = Inl NoImageUrl
         | ProviderOk (Inr (Some (u # us))) \<Rightarrow> (\<exists>s. fst (request_stage w p) = Inr s)"
  using assms
  by (simp add: request_stage_def Let_def
      split: provider_reply.splits sum.splits option.splits list.splits)

text \<open>
  C10: \<open>generateDoubaoSeedreamImage\<close> returns for every input and every world. The
  returned value either has \<open>success = true\<close> or is \<open>{success: false, error}\<close> with no
  \<open>urls\<close>, \<open>ossKeys\<close> or \<open>images\<close>. The second is what comes back when validation
  fails, when the API key is missing or empty, when the primary request is rejected,
  answered with an error status or with a body that cannot be read, when the provider's
  answer holds no image, and when the processing of every image has failed.
\<close>

theorem generate_never_throws:
  "\<exists>out tr.
     generateDoubaoSeedreamImage w p = Some (out, tr) \<and>
     (g_success out \<or>
      (\<exists>e. out = \<lparr> g_success = False, g_urls = None, g_ossKeys = None, g_error = Some e,
                   g_images = None \<rparr>)) \<and>
     (\<forall>e. DoubaoSeedreamInputSchema_parse p = Inl e \<longrightarrow> out = failure e) \<and>
     (\<forall>v. DoubaoSeedreamInputSchema_parse p = Inr v \<longrightarrow>
        (or_default (SEED_EDIT_KEY w) [] = [] \<longrightarrow> out = failure MissingApiKey) \<and>
        (or_default (SEED_EDIT_KEY w) [] \<noteq> [] \<longrightarrow>
           (case provider w 0 (requestBody v (fst (resolveSize (v_size v) (resizeOptions p)))) of
              ProviderRejects e \<Rightarrow> out = failure e
            | ProviderNotOk st stxt (Inl e) \<Rightarrow> out = failure e
            | ProviderNotOk st stxt (Inr errorText) \<Rightarrow>
                out = failure (ApiCallFailed st stxt errorText)
            | ProviderOk (Inl e) \<Rightarrow> out = failure e
            | ProviderOk (Inr None) \<Rightarrow> out = failure NoImageUrl
            | ProviderOk (Inr (Some [])) \<Rightarrow> out = failure NoImageUrl
            | ProviderOk (Inr (Some (u # us))) \<Rightarrow>
                g_success out \<or> out = failure AllProcessingFailed)))"
proof -
  let ?out = "case fst (request_stage w p) of
             Inl e \<Rightarrow> failure e
           | Inr s \<Rightarrow> finish (map (item w (projectId p) (Some (uploadQuality s))
                                     (targetResizeOptions s)) (enumerate 0 (allImageUrls s)))"
  have gen: "generateDoubaoSeedreamImage w p = Some (?out, snd (request_stage w p))"
    by (rule generate_eq)
  have shape: "g_success ?out \<or>
      (\<exists>e. ?out = \<lparr> g_success = False, g_urls = None, g_ossKeys = None, g_error = Some e,
                   g_images = None \<rparr>)"
    using finish_cases by (auto simp: failure_fields split: sum.splits)
  have invalid: "\<forall>e. DoubaoSeedreamInputSchema_parse p = Inl e \<longrightarrow> ?out = failure e"
    by (simp add: stage_invalid)
  have valid: "\<forall>v. DoubaoSeedreamInputSchema_parse p = Inr v \<longrightarrow>
        (or_default (SEED_EDIT_KEY w) [] = [] \<longrightarrow> ?out = failure MissingApiKey) \<and>
        (or_default (SEED_EDIT_KEY w) [] \<noteq> [] \<longrightarrow>
           (case provider w 0 (requestBody v (fst (resolveSize (v_size v) (resizeOptions p)))) of
              ProviderRejects e \<Rightarrow> ?out = failure e
            | ProviderNotOk st stxt (Inl e) \<Rightarrow> ?out = failure e
            | ProviderNotOk st stxt (Inr errorText) \<Rightarrow>
                ?out = failure (ApiCallFailed st stxt errorText)
            | ProviderOk (Inl e) \<Rightarrow> ?out = failure e
            | ProviderOk (Inr None) \<Rightarrow> ?out = failure NoImageUrl
            | ProviderOk (Inr (Some [])) \<Rightarrow> ?out = failure NoImageUrl
            | ProviderOk (Inr (Some (u # us))) \<Rightarrow>
                g_success ?out \<or> ?out = failure AllProcessingFailed))"
  proof (intro allI impI conjI)
    fix v
    assume "DoubaoSeedreamInputSchema_parse p = Inr v" and "or_default (SEED_EDIT_KEY w) [] = []"
    then show "?out = failure MissingApiKey"
      by (simp add: stage_no_key)
  next
    fix v
    assume v: "DoubaoSeedreamInputSchema_parse p = Inr v" and key: "or_default (SEED_EDIT_KEY w) [] \<noteq> []"
    from stage_primary_thrown [OF v key] finish_cases
    show "case provider w 0 (requestBody v (fst (resolveSize (v_size v) (resizeOptions p)))) of
              ProviderRejects e \<Rightarrow> ?out = failure e
            | ProviderNotOk st stxt (Inl e) \<Rightarrow> ?out = failure e
            | ProviderNotOk st stxt (Inr errorText) \<Rightarrow>
                ?out = failure (ApiCallFailed st stxt errorText)
            | ProviderOk (Inl e) \<Rightarrow> ?out = failure e
            | ProviderOk (Inr None) \<Rightarrow> ?out = failure NoImageUrl
            | ProviderOk (Inr (Some [])) \<Rightarrow> ?out = failure NoImageUrl
            | ProviderOk (Inr (Some (u # us))) \<Rightarrow>
                g_success ?out \<or> ?out = failure AllProcessingFailed"
      by (auto split: provider_reply.splits sum.splits option.splits list.splits)
  qed
  from gen shape invalid valid show ?thesis
    by blast
qed

lemma example_parse_empty_prompt:
  "DoubaoSeedreamInputSchema_parse (example_params \<lparr> prompt := [] \<rparr>)
     = Inl (ZodError [too_small ''prompt''])"
  by (simp add: DoubaoSeedreamInputSchema_parse_def issues_def example_params_def check_prompt_def
      check_negative_prompt_def check_size_def check_optional_number_def check_quality_def)

theorem generate_never_throws_witness:
  "(\<exists>tr. generateDoubaoSeedreamImage example_world (example_params \<lparr> prompt := [] \<rparr>)
           = Some (failure (ZodError [too_small ''prompt'']), tr)) \<and>
   (\<exists>tr. generateDoubaoSeedreamImage (example_world \<lparr> SEED_EDIT_KEY := None \<rparr>) example_params
           = Some (failure MissingApiKey, tr))"
proof -
  from generate_never_throws [of example_world "example_params \<lparr> prompt := [] \<rparr>"]
       example_parse_empty_prompt
  have 1: "\<exists>tr. generateDoubaoSeedreamImage example_world (example_params \<lparr> prompt := [] \<rparr>)
           = Some (failure (ZodError [too_small ''prompt'']), tr)"
    by auto
  have nokey: "or_default (SEED_EDIT_KEY (example_world \<lparr> SEED_EDIT_KEY := None \<rparr>)) [] = []"
    by (simp add: or_default_def)
  from generate_never_throws [of "example_world \<lparr> SEED_EDIT_KEY := None \<rparr>" example_params]
       example_parse nokey
  have 2: "\<exists>tr. generateDoubaoSeedreamImage (example_world \<lparr> SEED_EDIT_KEY := None \<rparr>) example_params
           = Some (failure MissingApiKey, tr)"
    by auto
  from 1 2 show ?thesis
    by blast
qed

section \<open>Claims about validation\<close>

lemma issues_empty_iff:
  "issues p = [] \<longleftrightarrow>
     check_prompt (prompt p) = [] \<and> check_negative_prompt (negative_prompt p) = [] \<and>
     check_size (size p) = [] \<and>
     check_optional_number ''num_images'' 1 4 (num_images p) = [] \<and>
     check_optional_number ''seed'' 0 2147483647 (seed p) = [] \<and>
     check_quality (quality p) = []"
  by (simp add: issues_def)

lemma check_prompt_ok: "check_prompt s = [] \<longleftrightarrow> 1 \<le> length s \<and> length s \<le> 800"
  by (cases s) (auto simp: check_prompt_def)

lemma check_negative_prompt_ok:
  "check_negative_prompt np = [] \<longleftrightarrow> (\<forall>s. np = Some s \<longrightarrow> length s \<le> 500)"
  by (auto simp: check_negative_prompt_def split: option.splits)

lemma check_number_ok: "check_number path lo hi n = [] \<longleftrightarrow> (\<exists>x. n = Num x \<and> lo \<le> x \<and> x \<le> hi)"
  by (cases n) auto

text \<open>
  C9: validation succeeds for every prompt of 1 to 800 code units with a negative prompt
  of at most 500 (or none), the other fields being valid; it fails with a validation
  error for a prompt of length 0 and for every prompt longer than 800, so for 801; it
  fails for every image count outside [1,4], \<open>NaN\<close> and the infinities included. When
  validation fails the call returns the failure with no event at all, whatever the
  world: nothing outside has been called.
\<close>

theorem validation_before_any_call:
  "(1 \<le> length (prompt p) \<and> length (prompt p) \<le> 800 \<and>
    (\<forall>s. negative_prompt p = Some s \<longrightarrow> length s \<le> 500) \<and>
    check_size (size p) = [] \<and>
    check_optional_number ''num_images'' 1 4 (num_images p) = [] \<and>
    check_optional_number ''seed'' 0 2147483647 (seed p) = [] \<and>
    check_quality (quality p) = []
    \<longrightarrow> (\<exists>v. DoubaoSeedreamInputSchema_parse p = Inr v)) \<and>
   (length (prompt p) = 0 \<or> 800 < length (prompt p)
    \<longrightarrow> (\<exists>found. DoubaoSeedreamInputSchema_parse p = Inl (ZodError found))) \<and>
   (\<forall>n. num_images p = Some n \<and> \<not> (\<exists>x. n = Num x \<and> 1 \<le> x \<and> x \<le> 4)
    \<longrightarrow> (\<exists>found. DoubaoSeedreamInputSchema_parse p = Inl (ZodError found))) \<and>
   (\<forall>e. DoubaoSeedreamInputSchema_parse p = Inl e
    \<longrightarrow> generateDoubaoSeedreamImage w p = Some (failure e, []))"
proof -
  have ok: "1 \<le> length (prompt p) \<and> length (prompt p) \<le> 800 \<and>
    (\<forall>s. negative_prompt p = Some s \<longrightarrow> length s \<le> 500) \<and>
    check_size (size p) = [] \<and>
    check_optional_number ''num_images'' 1 4 (num_images p) = [] \<and>
    check_optional_number ''seed'' 0 2147483647 (seed p) = [] \<and>
    check_quality (quality p) = []
    \<longrightarrow> (\<exists>v. DoubaoSeedreamInputSchema_parse p = Inr v)"
    by (simp add: parse_ok_iff issues_empty_iff check_prompt_ok check_negative_prompt_ok)
  have prompt_bad: "length (prompt p) = 0 \<or> 800 < length (prompt p)
    \<longrightarrow> (\<exists>found. DoubaoSeedreamInputSchema_parse p = Inl (ZodError found))"
  proof
    assume "length (prompt p) = 0 \<or> 800 < length (prompt p)"
    then have "check_prompt (prompt p) \<noteq> []"
      by (auto simp: check_prompt_ok)
    then have "issues p \<noteq> []"
      by (simp add: issues_empty_iff)
    then show "\<exists>found. DoubaoSeedreamInputSchema_parse p = Inl (ZodError found)"
      by (simp add: DoubaoSeedreamInputSchema_parse_def)
  qed
  have count_bad: "\<forall>n. num_images p = Some n \<and> \<not> (\<exists>x. n = Num x \<and> 1 \<le> x \<and> x \<le> 4)
    \<longrightarrow> (\<exists>found. DoubaoSeedreamInputSchema_parse p = Inl (ZodError found))"
  proof (intro allI impI)
    fix n
    assume "num_images p = Some n \<and> \<not> (\<exists>x. n = Num x \<and> 1 \<le> x \<and> x \<le> 4)"
    then have "check_optional_number ''num_images'' 1 4 (num_images p) \<noteq> []"
      by (simp add: check_optional_number_def check_number_ok)
    then have "issues p \<noteq> []"
      by (simp add: issues_empty_iff)
    then show "\<exists>found. DoubaoSeedreamInputSchema_parse p = Inl (ZodError found)"
      by (simp add: DoubaoSeedreamInputSchema_parse_def)
  qed
  have before: "\<forall>e. DoubaoSeedreamInputSchema_parse p = Inl e
    \<longrightarrow> generateDoubaoSeedreamImage w p = Some (failure e, [])"
    by (simp add: generate_thrown stage_invalid)
  from ok prompt_bad count_bad before show ?thesis
    by blast
qed

theorem validation_before_any_call_witness:
  "(\<exists>v. DoubaoSeedreamInputSchema_parse
          (example_params \<lparr> prompt := replicate 800 0x79, negative_prompt := Some (replicate 500 0x6E) \<rparr>)
        = Inr v) \<and>
   (\<exists>found. DoubaoSeedreamInputSchema_parse (example_params \<lparr> prompt := replicate 801 0x79 \<rparr>)
        = Inl (ZodError found)) \<and>
   (\<exists>found. DoubaoSeedreamInputSchema_parse (example_params \<lparr> num_images := Some (Num 5) \<rparr>)
        = Inl (ZodError found)) \<and>
   generateDoubaoSeedreamImage example_world (example_params \<lparr> prompt := [] \<rparr>)
     = Some (failure (ZodError [too_small ''prompt'']), [])"
proof -
  have others: "check_size (size example_params) = [] \<and>
    check_optional_number ''num_images'' 1 4 (num_images example_params) = [] \<and>
    check_optional_number ''seed'' 0 2147483647 (seed example_params) = [] \<and>
    check_quality (quality example_params) = []"
    by (simp add: example_params_def check_size_def check_optional_number_def check_quality_def)
  from validation_before_any_call
         [of "example_params \<lparr> prompt := replicate 800 0x79, negative_prompt := Some (replicate 500 0x6E) \<rparr>"]
       others
  have 1: "\<exists>v. DoubaoSeedreamInputSchema_parse
          (example_params \<lparr> prompt := replicate 800 0x79, negative_prompt := Some (replicate 500 0x6E) \<rparr>)
        = Inr v"
    by simp
  from validation_before_any_call [of "example_params \<lparr> prompt := replicate 801 0x79 \<rparr>"]
  have 2: "\<exists>found. DoubaoSeedreamInputSchema_parse (example_params \<lparr> prompt := replicate 801 0x79 \<rparr>)
        = Inl (ZodError found)"
    by simp
  from validation_before_any_call [of "example_params \<lparr> num_images := Some (Num 5) \<rparr>"]
  have 3: "\<exists>found. DoubaoSeedreamInputSchema_parse (example_params \<lparr> num_images := Some (Num 5) \<rparr>)
        = Inl (ZodError found)"
    by simp
  from validation_before_any_call [of "example_params \<lparr> prompt := [] \<rparr>" example_world]
       example_parse_empty_prompt
  have 4: "generateDoubaoSeedreamImage example_world (example_params \<lparr> prompt := [] \<rparr>)
     = Some (failure (ZodError [too_small ''prompt'']), [])"
    by simp
  from 1 2 3 4 show ?thesis
    by blast
qed

section \<open>Claims about the size\<close>

lemma named_tiers:
  "check_size (Some (utf16 ''2K'')) = [] \<and> fst (resolveSize (utf16 ''2K'') r) = Size2K \<and>
   check_size (Some (utf16 ''4K'')) = [] \<and> fst (resolveSize (utf16 ''4K'') r) = Size4K"
  by (simp add: check_size_def resolveSize_def size_pattern_def utf16_def isDigit_def)

lemma validated_size:
  "DoubaoSeedreamInputSchema_parse p = Inr v \<Longrightarrow>
   v_size v = (case size p of None \<Rightarrow> utf16 ''2K'' | Some s \<Rightarrow> s)"
  by (auto simp: DoubaoSeedreamInputSchema_parse_def split: if_splits)

text \<open>
  C6, as amended: for every explicit size string of digits, the letter x in either case,
  digits, with positive W and H that \<open>parseInt\<close> turns into finite numbers (every value
  below 2^1024 - 2^970, so every number of up to 308 digits), the string passes the
  schema and the tier is 4K when max(W,H) > 2048 and 2K otherwise. The tokens 2K and 4K
  map to themselves. Without a size the validated size is 2K and so is the tier. The
  tier is the \<open>size\<close> of the request body.
\<close>

theorem tier_of_size:
  "(ws \<noteq> [] \<and> list_all isDigit ws \<and> hs \<noteq> [] \<and> list_all isDigit hs \<and> isX x \<and>
    0 < digitsValue ws \<and> digitsValue ws < 2 ^ 1024 - 2 ^ 970 \<and>
    0 < digitsValue hs \<and> digitsValue hs < 2 ^ 1024 - 2 ^ 970
    \<longrightarrow> check_size (Some (ws @ x # hs)) = [] \<and>
        fst (resolveSize (ws @ x # hs) r) =
          (if 2048 < max (digitsValue ws) (digitsValue hs) then Size4K else Size2K)) \<and>
   check_size (Some (utf16 ''2K'')) = [] \<and> fst (resolveSize (utf16 ''2K'') r) = Size2K \<and>
   check_size (Some (utf16 ''4K'')) = [] \<and> fst (resolveSize (utf16 ''4K'') r) = Size4K \<and>
   (size p = None \<and> DoubaoSeedreamInputSchema_parse p = Inr v
    \<longrightarrow> fst (resolveSize (v_size v) r) = Size2K) \<and>
   (\<forall>s. size p = Some s \<and> DoubaoSeedreamInputSchema_parse p = Inr v \<longrightarrow> v_size v = s) \<and>
   req_size (requestBody v (fst (resolveSize (v_size v) r))) = fst (resolveSize (v_size v) r)"
proof -
  have explicit: "ws \<noteq> [] \<and> list_all isDigit ws \<and> hs \<noteq> [] \<and> list_all isDigit hs \<and> isX x \<and>
    0 < digitsValue ws \<and> digitsValue ws < 2 ^ 1024 - 2 ^ 970 \<and>
    0 < digitsValue hs \<and> digitsValue hs < 2 ^ 1024 - 2 ^ 970
    \<longrightarrow> check_size (Some (ws @ x # hs)) = [] \<and>
        fst (resolveSize (ws @ x # hs) r) =
          (if 2048 < max (digitsValue ws) (digitsValue hs) then Size4K else Size2K)"
    using check_size_parts [of ws hs x] tier_from_values [of ws hs x r] by blast
  have absent: "size p = None \<and> DoubaoSeedreamInputSchema_parse p = Inr v
    \<longrightarrow> fst (resolveSize (v_size v) r) = Size2K"
    using validated_size [of p v] named_tiers [of r] by auto
  have given: "\<forall>s. size p = Some s \<and> DoubaoSeedreamInputSchema_parse p = Inr v \<longrightarrow> v_size v = s"
    using validated_size [of p v] by auto
  have body: "req_size (requestBody v (fst (resolveSize (v_size v) r))) = fst (resolveSize (v_size v) r)"
    by (simp add: requestBody_def)
  from explicit named_tiers [of r] absent given body show ?thesis
    by blast
qed

lemma digits_3000: "list_all isDigit (utf16 ''3000'') \<and> digitsValue (utf16 ''3000'') = 3000"
  by (simp add: utf16_def isDigit_def digitsValue_def)

lemma digits_1000: "list_all isDigit (utf16 ''1000'') \<and> digitsValue (utf16 ''1000'') = 1000"
  by (simp add: utf16_def isDigit_def digitsValue_def)

lemma digits_1024: "list_all isDigit (utf16 ''1024'') \<and> digitsValue (utf16 ''1024'') = 1024"
  by (simp add: utf16_def isDigit_def digitsValue_def)

lemma digits_768: "list_all isDigit (utf16 ''768'') \<and> digitsValue (utf16 ''768'') = 768"
  by (simp add: utf16_def isDigit_def digitsValue_def)

theorem tier_of_size_witness:
  "fst (resolveSize (utf16 ''3000x1000'') None) = Size4K \<and>
   fst (resolveSize (utf16 ''1024X768'') None) = Size2K \<and>
   (size example_params = None \<and>
    (\<exists>v. DoubaoSeedreamInputSchema_parse example_params = Inr v \<and>
         fst (resolveSize (v_size v) None) = Size2K))"
proof -
  have small: "(3000::nat) < 2 ^ 1024 - 2 ^ 970" "(1000::nat) < 2 ^ 1024 - 2 ^ 970"
    "(1024::nat) < 2 ^ 1024 - 2 ^ 970" "(768::nat) < 2 ^ 1024 - 2 ^ 970"
    by simp_all
  have "fst (resolveSize (utf16 ''3000'' @ 0x78 # utf16 ''1000'') None) = Size4K"
    using tier_of_size [of "utf16 ''3000''" "utf16 ''1000''" "0x78" None] digits_3000 digits_1000 small
    by (simp add: isX_def) (simp add: utf16_def)
  moreover have "utf16 ''3000'' @ 0x78 # utf16 ''1000'' = utf16 ''3000x1000''"
    by (simp add: utf16_def)
  ultimately have 1: "fst (resolveSize (utf16 ''3000x1000'') None) = Size4K"
    by simp
  have "fst (resolveSize (utf16 ''1024'' @ 0x58 # utf16 ''768'') None) = Size2K"
    using tier_of_size [of "utf16 ''1024''" "utf16 ''768''" "0x58" None] digits_1024 digits_768 small
    by (simp add: isX_def) (simp add: utf16_def)
  moreover have "utf16 ''1024'' @ 0x58 # utf16 ''768'' = utf16 ''1024X768''"
    by (simp add: utf16_def)
  ultimately have 2: "fst (resolveSize (utf16 ''1024X768'') None) = Size2K"
    by simp
  have none: "size example_params = None"
    by (simp add: example_params_def)
  from example_parse obtain v where v: "DoubaoSeedreamInputSchema_parse example_params = Inr v"
    by blast
  with tier_of_size [of _ _ _ None example_params v] none
  have "fst (resolveSize (v_size v) None) = Size2K"
    by blast
  with 1 2 none v show ?thesis
    by blast
qed

text \<open>
  A width of 309 nines passes the schema and is far above 2048, yet \<open>parseInt\<close> gives
  \<open>Infinity\<close> for it, the guard \<open>Number.isFinite\<close> fails and the tier stays 2K.
\<close>

theorem tier_of_huge_size_counterexample:
  "check_size (Some (replicate 309 0x39 @ utf16 ''x100'')) = [] \<and>
   2048 < max (digitsValue (replicate 309 0x39)) (digitsValue (utf16 ''100'')) \<and>
   fst (resolveSize (replicate 309 0x39 @ utf16 ''x100'') None) = Size2K"
proof -
  have ws: "replicate 309 (0x39 :: 16 word) \<noteq> [] \<and> list_all isDigit (replicate 309 0x39)"
    by (simp add: list_all_iff isDigit_def)
  have hs: "utf16 ''100'' \<noteq> [] \<and> list_all isDigit (utf16 ''100'')"
    by (simp add: utf16_def isDigit_def)
  have x: "isX 0x78"
    by (simp add: isX_def)
  have str: "replicate 309 0x39 @ utf16 ''x100'' = replicate 309 0x39 @ 0x78 # utf16 ''100''"
    by (simp add: utf16_def)
  have huge: "2 ^ 1024 \<le> digitsValue (replicate 309 0x39)"
    by (simp only: digitsValue_nines) simp
  then have big: "2048 < max (digitsValue (replicate 309 0x39)) (digitsValue (utf16 ''100''))"
    by (simp add: less_max_iff_disj)
  from ws hs x have "check_size (Some (replicate 309 0x39 @ 0x78 # utf16 ''100'')) = []"
    by (intro check_size_parts) simp_all
  moreover have "(2::nat) ^ 1024 - 2 ^ 970 \<le> 2 ^ 1024"
    by (rule diff_le_self)
  then have "2 ^ 1024 - 2 ^ 970 \<le> digitsValue (replicate 309 0x39)"
    using huge by (rule le_trans)
  with ws hs x
  have "resolveSize (replicate 309 0x39 @ 0x78 # utf16 ''100'') None = (Size2K, None)"
    by (intro fallback_from_values) simp_all
  ultimately show ?thesis
    using big by (simp add: str)
qed

lemma abcxdef_malformed:
  "utf16 ''abcxdef'' \<noteq> utf16 ''2K'' \<and> utf16 ''abcxdef'' \<noteq> utf16 ''4K'' \<and>
   \<not> size_pattern (utf16 ''abcxdef'')"
  by (simp add: utf16_def size_pattern_def isDigit_def)

text \<open>
  C1, as amended: a size that is neither 2K nor 4K and does not match digits, x, digits
  is rejected by validation: the schema reports the issue of the pattern on the size
  field, with the message of line 41, and the call returns \<open>{success: false, error}\<close>
  with the error of the schema, no \<open>urls\<close>, \<open>ossKeys\<close> or \<open>images\<close>, and nothing outside
  is called, so no tier is resolved. A string that matches the pattern passes the
  schema; it falls back to 2K with no derived resize directive exactly when its width or
  height is 0 or is 2^1024 - 2^970 or more (\<open>parseInt\<close> then gives \<open>Infinity\<close>), and
  otherwise its resize directive is derived from the width and the height.
\<close>

theorem malformed_size_is_rejected:
  "(size p = Some s \<and> s \<noteq> utf16 ''2K'' \<and> s \<noteq> utf16 ''4K'' \<and> \<not> size_pattern s
    \<longrightarrow> check_size (size p) = [pattern_issue ''size'' size_message] \<and>
        pattern_issue ''size'' size_message \<in> set (issues p) \<and>
        DoubaoSeedreamInputSchema_parse p = Inl (ZodError (issues p)) \<and>
        generateDoubaoSeedreamImage w p =
          Some (\<lparr> g_success = False, g_urls = None, g_ossKeys = None,
                  g_error = Some (ZodError (issues p)), g_images = None \<rparr>, [])) \<and>
   (ws \<noteq> [] \<and> list_all isDigit ws \<and> hs \<noteq> [] \<and> list_all isDigit hs \<and> isX x
    \<longrightarrow> check_size (Some (ws @ x # hs)) = [] \<and>
        (if digitsValue ws = 0 \<or> digitsValue hs = 0 \<or>
            2 ^ 1024 - 2 ^ 970 \<le> digitsValue ws \<or> 2 ^ 1024 - 2 ^ 970 \<le> digitsValue hs
         then resolveSize (ws @ x # hs) r = (Size2K, r)
         else snd (resolveSize (ws @ x # hs) None) =
                Some \<lparr> width = Some (roundToDouble (digitsValue ws)),
                       height = Some (roundToDouble (digitsValue hs)),
                       fit = Some (utf16 ''cover''), position = Some (utf16 ''center'') \<rparr>))"
proof -
  have rejected: "size p = Some s \<and> s \<noteq> utf16 ''2K'' \<and> s \<noteq> utf16 ''4K'' \<and> \<not> size_pattern s
    \<longrightarrow> check_size (size p) = [pattern_issue ''size'' size_message] \<and>
        pattern_issue ''size'' size_message \<in> set (issues p) \<and>
        DoubaoSeedreamInputSchema_parse p = Inl (ZodError (issues p)) \<and>
        generateDoubaoSeedreamImage w p =
          Some (\<lparr> g_success = False, g_urls = None, g_ossKeys = None,
                  g_error = Some (ZodError (issues p)), g_images = None \<rparr>, [])"
  proof
    assume bad: "size p = Some s \<and> s \<noteq> utf16 ''2K'' \<and> s \<noteq> utf16 ''4K'' \<and> \<not> size_pattern s"
    then have size: "check_size (size p) = [pattern_issue ''size'' size_message]"
      by (simp add: check_size_def)
    then have found: "pattern_issue ''size'' size_message \<in> set (issues p)"
      by (simp add: issues_def)
    then have "issues p \<noteq> []"
      by auto
    then have parse: "DoubaoSeedreamInputSchema_parse p = Inl (ZodError (issues p))"
      by (simp add: DoubaoSeedreamInputSchema_parse_def)
    then have "generateDoubaoSeedreamImage w p =
          Some (\<lparr> g_success = False, g_urls = None, g_ossKeys = None,
                  g_error = Some (ZodError (issues p)), g_images = None \<rparr>, [])"
      by (simp add: generate_thrown stage_invalid failure_def)
    with size found parse show "check_size (size p) = [pattern_issue ''size'' size_message] \<and>
        pattern_issue ''size'' size_message \<in> set (issues p) \<and>
        DoubaoSeedreamInputSchema_parse p = Inl (ZodError (issues p)) \<and>
        generateDoubaoSeedreamImage w p =
          Some (\<lparr> g_success = False, g_urls = None, g_ossKeys = None,
                  g_error = Some (ZodError (issues p)), g_images = None \<rparr>, [])"
      by blast
  qed
  have matching: "ws \<noteq> [] \<and> list_all isDigit ws \<and> hs \<noteq> [] \<and> list_all isDigit hs \<and> isX x
    \<longrightarrow> check_size (Some (ws @ x # hs)) = [] \<and>
        (if digitsValue ws = 0 \<or> digitsValue hs = 0 \<or>
            2 ^ 1024 - 2 ^ 970 \<le> digitsValue ws \<or> 2 ^ 1024 - 2 ^ 970 \<le> digitsValue hs
         then resolveSize (ws @ x # hs) r = (Size2K, r)
         else snd (resolveSize (ws @ x # hs) None) =
                Some \<lparr> width = Some (roundToDouble (digitsValue ws)),
                       height = Some (roundToDouble (digitsValue hs)),
                       fit = Some (utf16 ''cover''), position = Some (utf16 ''center'') \<rparr>)"
  proof
    assume parts: "ws \<noteq> [] \<and> list_all isDigit ws \<and> hs \<noteq> [] \<and> list_all isDigit hs \<and> isX x"
    then have passes: "check_size (Some (ws @ x # hs)) = []"
      by (intro check_size_parts) simp_all
    show "check_size (Some (ws @ x # hs)) = [] \<and>
        (if digitsValue ws = 0 \<or> digitsValue hs = 0 \<or>
            2 ^ 1024 - 2 ^ 970 \<le> digitsValue ws \<or> 2 ^ 1024 - 2 ^ 970 \<le> digitsValue hs
         then resolveSize (ws @ x # hs) r = (Size2K, r)
         else snd (resolveSize (ws @ x # hs) None) =
                Some \<lparr> width = Some (roundToDouble (digitsValue ws)),
                       height = Some (roundToDouble (digitsValue hs)),
                       fit = Some (utf16 ''cover''), position = Some (utf16 ''center'') \<rparr>)"
    proof (cases "digitsValue ws = 0 \<or> digitsValue hs = 0 \<or>
            2 ^ 1024 - 2 ^ 970 \<le> digitsValue ws \<or> 2 ^ 1024 - 2 ^ 970 \<le> digitsValue hs")
      case True
      with parts have "resolveSize (ws @ x # hs) r = (Size2K, r)"
        by (intro fallback_from_values) simp_all
      with True passes show ?thesis
        by (simp only: if_True simp_thms)
    next
      case False
      then have "0 < digitsValue ws" "digitsValue ws < 2 ^ 1024 - 2 ^ 970"
        "0 < digitsValue hs" "digitsValue hs < 2 ^ 1024 - 2 ^ 970"
        by (simp_all only: de_Morgan_disj not_le neq0_conv)
      with parts have "snd (resolveSize (ws @ x # hs) None) =
                Some \<lparr> width = Some (roundToDouble (digitsValue ws)),
                       height = Some (roundToDouble (digitsValue hs)),
                       fit = Some (utf16 ''cover''), position = Some (utf16 ''center'') \<rparr>"
        by (intro directive_from_values) simp_all
      with False passes show ?thesis
        by (simp only: if_False simp_thms)
    qed
  qed
  from rejected matching show ?thesis
    by blast
qed

theorem malformed_size_is_rejected_witness:
  "generateDoubaoSeedreamImage example_world (example_params \<lparr> size := Some (utf16 ''abcxdef'') \<rparr>)
     = Some (\<lparr> g_success = False, g_urls = None, g_ossKeys = None,
               g_error = Some (ZodError [pattern_issue ''size'' size_message]),
               g_images = None \<rparr>, []) \<and>
   check_size (Some (utf16 ''0x100'')) = [] \<and>
   resolveSize (utf16 ''0x100'') None = (Size2K, None) \<and>
   check_size (Some (utf16 ''1024x768'')) = [] \<and>
   snd (resolveSize (utf16 ''1024x768'') None) =
     Some \<lparr> width = Some (Num 1024), height = Some (Num 768),
            fit = Some (utf16 ''cover''), position = Some (utf16 ''center'') \<rparr>"
proof -
  let ?p = "example_params \<lparr> size := Some (utf16 ''abcxdef'') \<rparr>"
  have size: "size ?p = Some (utf16 ''abcxdef'')"
    by simp
  have all: "issues ?p = check_size (size ?p)"
    by (simp add: issues_def example_params_def check_prompt_def check_negative_prompt_def
        check_optional_number_def check_quality_def) (simp add: utf16_def)
  from malformed_size_is_rejected [of ?p "utf16 ''abcxdef''" example_world "[]" "[]" 0 None]
       abcxdef_malformed size
  have "check_size (size ?p) = [pattern_issue ''size'' size_message] \<and>
        generateDoubaoSeedreamImage example_world ?p =
          Some (\<lparr> g_success = False, g_urls = None, g_ossKeys = None,
                  g_error = Some (ZodError (issues ?p)), g_images = None \<rparr>, [])"
    by blast
  with all have 1: "generateDoubaoSeedreamImage example_world ?p
     = Some (\<lparr> g_success = False, g_urls = None, g_ossKeys = None,
               g_error = Some (ZodError [pattern_issue ''size'' size_message]),
               g_images = None \<rparr>, [])"
    by simp
  have zero: "utf16 ''0'' \<noteq> [] \<and> list_all isDigit (utf16 ''0'') \<and> utf16 ''100'' \<noteq> [] \<and>
    list_all isDigit (utf16 ''100'') \<and> isX 0x78" and z: "digitsValue (utf16 ''0'') = 0"
    by (simp_all add: utf16_def isDigit_def isX_def digitsValue_def)
  have str0: "utf16 ''0'' @ 0x78 # utf16 ''100'' = utf16 ''0x100''"
    by (simp add: utf16_def)
  from malformed_size_is_rejected
         [of example_params "[]" example_world "utf16 ''0''" "utf16 ''100''" "0x78" None] zero z
  have "check_size (Some (utf16 ''0'' @ 0x78 # utf16 ''100'')) = [] \<and>
        resolveSize (utf16 ''0'' @ 0x78 # utf16 ''100'') None = (Size2K, None)"
    by simp
  then have 2: "check_size (Some (utf16 ''0x100'')) = [] \<and>
        resolveSize (utf16 ''0x100'') None = (Size2K, None)"
    by (simp only: str0)
  have parts: "utf16 ''1024'' \<noteq> [] \<and> list_all isDigit (utf16 ''1024'') \<and> utf16 ''768'' \<noteq> [] \<and>
    list_all isDigit (utf16 ''768'') \<and> isX 0x78"
    using digits_1024 digits_768 by (simp add: isX_def) (simp add: utf16_def)
  have vals: "\<not> (digitsValue (utf16 ''1024'') = 0 \<or> digitsValue (utf16 ''768'') = 0 \<or>
            2 ^ 1024 - 2 ^ 970 \<le> digitsValue (utf16 ''1024'') \<or>
            2 ^ 1024 - 2 ^ 970 \<le> digitsValue (utf16 ''768''))"
    using digits_1024 digits_768 by simp
  have str1: "utf16 ''1024'' @ 0x78 # utf16 ''768'' = utf16 ''1024x768''"
    by (simp add: utf16_def)
  have exact: "roundToDouble (digitsValue (utf16 ''1024'')) = Num 1024"
    "roundToDouble (digitsValue (utf16 ''768'')) = Num 768"
    using digits_1024 digits_768 by (simp_all add: round_small)
  from malformed_size_is_rejected
         [of example_params "[]" example_world "utf16 ''1024''" "utf16 ''768''" "0x78" None] parts
  have "check_size (Some (utf16 ''1024'' @ 0x78 # utf16 ''768'')) = [] \<and>
        (if digitsValue (utf16 ''1024'') = 0 \<or> digitsValue (utf16 ''768'') = 0 \<or>
            2 ^ 1024 - 2 ^ 970 \<le> digitsValue (utf16 ''1024'') \<or>
            2 ^ 1024 - 2 ^ 970 \<le> digitsValue (utf16 ''768'')
         then resolveSize (utf16 ''1024'' @ 0x78 # utf16 ''768'') None = (Size2K, None)
         else snd (resolveSize (utf16 ''1024'' @ 0x78 # utf16 ''768'') None) =
                Some \<lparr> width = Some (roundToDouble (digitsValue (utf16 ''1024''))),
                       height = Some (roundToDouble (digitsValue (utf16 ''768''))),
                       fit = Some (utf16 ''cover''), position = Some (utf16 ''center'') \<rparr>)"
    by blast
  with vals have "check_size (Some (utf16 ''1024'' @ 0x78 # utf16 ''768'')) = [] \<and>
        snd (resolveSize (utf16 ''1024'' @ 0x78 # utf16 ''768'') None) =
                Some \<lparr> width = Some (roundToDouble (digitsValue (utf16 ''1024''))),
                       height = Some (roundToDouble (digitsValue (utf16 ''768''))),
                       fit = Some (utf16 ''cover''), position = Some (utf16 ''center'') \<rparr>"
    by (simp only: if_False)
  then have 3: "check_size (Some (utf16 ''1024x768'')) = [] \<and>
        snd (resolveSize (utf16 ''1024x768'') None) =
          Some \<lparr> width = Some (Num 1024), height = Some (Num 768),
                 fit = Some (utf16 ''cover''), position = Some (utf16 ''center'') \<rparr>"
    by (simp only: str1 exact)
  from 1 2 3 show ?thesis
    by blast
qed

text \<open>
  The size \<open>"abcxdef"\<close> is rejected: the call returns the failure with the issue of
  the pattern, and without any event.
\<close>

theorem malformed_size_counterexample:
  "generateDoubaoSeedreamImage example_world (example_params \<lparr> size := Some (utf16 ''abcxdef'') \<rparr>)
     = Some (\<lparr> g_success = False, g_urls = None, g_ossKeys = None,
               g_error = Some (ZodError [pattern_issue ''size'' size_message]),
               g_images = None \<rparr>, [])"
proof -
  have "issues (example_params \<lparr> size := Some (utf16 ''abcxdef'') \<rparr>)
          = [pattern_issue ''size'' size_message]"
    using abcxdef_malformed
    by (simp add: issues_def example_params_def check_prompt_def check_negative_prompt_def
        check_size_def check_optional_number_def check_quality_def) (simp add: utf16_def)
  then have "DoubaoSeedreamInputSchema_parse (example_params \<lparr> size := Some (utf16 ''abcxdef'') \<rparr>)
             = Inl (ZodError [pattern_issue ''size'' size_message])"
    by (simp add: DoubaoSeedreamInputSchema_parse_def)
  then show ?thesis
    by (simp add: generate_thrown stage_invalid failure_def)
qed

section \<open>The supplemental requests\<close>

lemma step_calls:
  "filter is_call (snd (supplemental_step w body r i st)) =
   filter is_call (snd st) @ [ProviderCall (body \<lparr> req_num_images := None \<rparr>)]"
  by (auto simp: supplemental_step_def Let_def
      split: provider_reply.splits sum.splits option.splits list.splits)

lemma supplemental_calls_count:
  "length (filter is_call (snd (supplemental_loop w body (of_nat m) i st))) =
   length (filter is_call (snd st)) + (m - i)"
proof (induction "m - i" arbitrary: i st)
  case 0
  then have "\<not> (of_nat i :: rat) < of_nat m"
    by simp
  then show ?case
    using 0 by (subst supplemental_loop.simps) simp
next
  case (Suc d)
  then have less: "(of_nat i :: rat) < of_nat m" and next_d: "d = m - Suc i"
    by simp_all
  from Suc.hyps(1) [OF next_d, of "supplemental_step w body (of_nat m) i st"] Suc.hyps(2) less
  show ?case
    by (subst supplemental_loop.simps) (simp add: step_calls)
qed

lemma step_no_throw:
  assumes "\<not> throws (provider w (Suc i) (body \<lparr> req_num_images := None \<rparr>))"
  shows "snd (supplemental_step w body (of_nat m) i st) =
         snd st @ ProviderCall (body \<lparr> req_num_images := None \<rparr>)
                # (if Suc i < m then [Delay 1000] else [])"
proof -
  have "(of_nat i :: rat) < of_nat m - 1 \<longleftrightarrow> (of_nat (Suc i) :: rat) < of_nat m"
    by (simp add: less_diff_eq add.commute)
  then have "(of_nat i :: rat) < of_nat m - 1 \<longleftrightarrow> Suc i < m"
    by (simp only: of_nat_less_iff)
  with assms show ?thesis
    by (auto simp: supplemental_step_def Let_def
        split: provider_reply.splits sum.splits option.splits list.splits)
qed

lemma supplemental_spaced:
  assumes "\<forall>j. i \<le> j \<and> j < m \<longrightarrow> \<not> throws (provider w (Suc j) (body \<lparr> req_num_images := None \<rparr>))"
  shows "snd (supplemental_loop w body (of_nat m) i st) =
         snd st @ spaced_calls (body \<lparr> req_num_images := None \<rparr>) m i"
  using assms
proof (induction "m - i" arbitrary: i st)
  case 0
  then have "\<not> (of_nat i :: rat) < of_nat m"
    by simp
  then show ?case
    using 0 by (subst supplemental_loop.simps) (simp add: spaced_calls_def)
next
  case (Suc d)
  then have less: "i < m" and next_d: "d = m - Suc i"
    by simp_all
  from Suc.prems have later: "\<forall>j. Suc i \<le> j \<and> j < m \<longrightarrow>
      \<not> throws (provider w (Suc j) (body \<lparr> req_num_images := None \<rparr>))"
    by simp
  from Suc.prems less have here: "\<not> throws (provider w (Suc i) (body \<lparr> req_num_images := None \<rparr>))"
    by simp
  have unfold: "spaced_calls (body \<lparr> req_num_images := None \<rparr>) m i =
      ProviderCall (body \<lparr> req_num_images := None \<rparr>) # (if Suc i < m then [Delay 1000] else [])
      @ spaced_calls (body \<lparr> req_num_images := None \<rparr>) m (Suc i)"
    using less by (simp add: spaced_calls_def upt_rec [of i m])
  from Suc.hyps(1) [OF next_d later, of "supplemental_step w body (of_nat m) i st"] less
  show ?case
    by (subst supplemental_loop.simps) (simp add: step_no_throw [OF here] unfold)
qed

lemma stage_supplemental:
  assumes "DoubaoSeedreamInputSchema_parse p = Inr v" and "or_default (SEED_EDIT_KEY w) [] \<noteq> []"
    and "provider w 0 (requestBody v (fst (resolveSize (v_size v) (resizeOptions p))))
           = ProviderOk (Inr (Some us))"
    and "us \<noteq> []" and "v_num_images v = of_nat n" and "length us < n"
  shows "snd (request_stage w p) =
           snd (supplemental_loop w (requestBody v (fst (resolveSize (v_size v) (resizeOptions p))))
                  (of_nat (n - length us)) 0
                  (us, [ProviderCall (requestBody v (fst (resolveSize (v_size v) (resizeOptions p))))]))"
proof -
  from assms(6) have "0 < n"
    by simp
  then have "(of_nat n :: rat) \<noteq> 0"
    by simp
  moreover from assms(6) have "(of_nat n :: rat) - of_nat (length us) = of_nat (n - length us)"
    by simp
  moreover from assms(6) have "(of_nat (length us) :: rat) < of_nat n"
    by (simp only: of_nat_less_iff)
  ultimately show ?thesis
    using assms(1-5) by (simp add: request_stage_def Let_def)
qed

text \<open>
  For an integer count \<open>n\<close> and \<open>k < n\<close> images in the primary answer there are exactly
  \<open>n - k\<close> supplemental requests, whatever they answer.
\<close>

lemma supplemental_requests_count:
  assumes "DoubaoSeedreamInputSchema_parse p = Inr v" and "or_default (SEED_EDIT_KEY w) [] \<noteq> []"
    and "provider w 0 (requestBody v (fst (resolveSize (v_size v) (resizeOptions p))))
           = ProviderOk (Inr (Some us))"
    and "us \<noteq> []" and "v_num_images v = of_nat n" and "length us < n"
  shows "length (filter is_call (snd (request_stage w p))) = 1 + (n - length us)"
  by (simp add: stage_supplemental [OF assms] supplemental_calls_count)

text \<open>
  When none of them throws, a delay of one second stands between each supplemental
  request and the next.
\<close>

lemma supplemental_requests_spaced:
  assumes "DoubaoSeedreamInputSchema_parse p = Inr v" and "or_default (SEED_EDIT_KEY w) [] \<noteq> []"
    and "provider w 0 (requestBody v (fst (resolveSize (v_size v) (resizeOptions p))))
           = ProviderOk (Inr (Some us))"
    and "us \<noteq> []" and "v_num_images v = of_nat n" and "length us < n"
    and "\<forall>j. \<not> throws (provider w (Suc j)
            (requestBody v (fst (resolveSize (v_size v) (resizeOptions p))) \<lparr> req_num_images := None \<rparr>))"
  shows "snd (request_stage w p) =
           ProviderCall (requestBody v (fst (resolveSize (v_size v) (resizeOptions p))))
           # spaced_calls
               (requestBody v (fst (resolveSize (v_size v) (resizeOptions p))) \<lparr> req_num_images := None \<rparr>)
               (n - length us) 0"
  using assms(7) by (simp add: stage_supplemental [OF assms(1-6)] supplemental_spaced)

lemma example_provider:
  "provider example_world 0 b = ProviderOk (Inr (Some [utf16 ''img0'', utf16 ''bad'']))"
  "provider example_world (Suc 0) b = ProviderRejects (Raised (utf16 ''fetch failed''))"
  "provider example_world (Suc (Suc k)) b = ProviderOk (Inr (Some [utf16 ''img2'']))"
  by (simp_all add: example_world_def)

text \<open>
  C4 at a failing input: the caller asks for 4 images, the primary answer holds 2, the
  first supplemental request is rejected by the network and the second succeeds. The
  call makes the two supplemental requests, and no delay stands between them: the
  rejected request left the \<open>try\<close> block before the delay.
\<close>

theorem supplemental_delay_skipped_after_throw:
  "\<exists>out body.
     generateDoubaoSeedreamImage example_world (example_params \<lparr> num_images := Some (Num 4) \<rparr>)
       = Some (out, [ProviderCall body,
                     ProviderCall (body \<lparr> req_num_images := None \<rparr>),
                     ProviderCall (body \<lparr> req_num_images := None \<rparr>)]) \<and>
     provider example_world 0 body = ProviderOk (Inr (Some [utf16 ''img0'', utf16 ''bad''])) \<and>
     provider example_world 1 (body \<lparr> req_num_images := None \<rparr>)
       = ProviderRejects (Raised (utf16 ''fetch failed''))"
proof -
  let ?p = "example_params \<lparr> num_images := Some (Num 4) \<rparr>"
  let ?v = "\<lparr> v_prompt = utf16 ''autumn hills'', v_negative_prompt = None, v_image = None,
           v_size = utf16 ''2K'', v_num_images = 4, v_sequential_image_generation = SeqDisabled,
           v_stream = False, v_watermark = False, v_seed = None, v_quality = None \<rparr>"
  let ?body = "requestBody ?v (fst (resolveSize (v_size ?v) (resizeOptions ?p)))"
  have parse: "DoubaoSeedreamInputSchema_parse ?p = Inr ?v"
    by (rule example_parse_count) simp_all
  have loop: "supplemental_loop example_world b 2 0 ([utf16 ''img0'', utf16 ''bad''], [ProviderCall b])
              = ([utf16 ''img0'', utf16 ''bad'', utf16 ''img2''],
                 [ProviderCall b, ProviderCall (b \<lparr> req_num_images := None \<rparr>),
                  ProviderCall (b \<lparr> req_num_images := None \<rparr>)])" for b
    apply (subst supplemental_loop.simps)
    apply (subst supplemental_loop.simps)
    apply (subst supplemental_loop.simps)
    apply (simp add: supplemental_step_def example_provider Let_def)
    done
  have "snd (request_stage example_world ?p) =
          [ProviderCall ?body, ProviderCall (?body \<lparr> req_num_images := None \<rparr>),
           ProviderCall (?body \<lparr> req_num_images := None \<rparr>)]"
    using example_key by (simp add: request_stage_def parse example_provider Let_def loop)
  moreover from generate_returns obtain out where
    "generateDoubaoSeedreamImage example_world ?p = Some (out, snd (request_stage example_world ?p))"
    by blast
  ultimately show ?thesis
    using example_provider(1) [of ?body] example_provider(2) [of "?body \<lparr> req_num_images := None \<rparr>"]
    by auto
qed

end
